theory Spec2Isabelle
  imports Complex_Main "HOL-Library.AList"
begin

section \<open>The Covasim web application: parameter catalog, reconciliation, result assembly\<close>

text \<open>
  A shallow embedding of \<^verbatim>\<open>covasim/webapp/cova_app.py\<close>: the four remote
  procedures \<^verbatim>\<open>get_defaults\<close>, \<^verbatim>\<open>upload_pars\<close> and \<^verbatim>\<open>run_sim\<close>
  (\<^verbatim>\<open>get_version\<close> only formats a string of the engine library).

  Conventions of the embedding.
  \<^item> A Python \<^verbatim>\<open>dict\<close> with string keys is an association list in insertion order;
    \<^verbatim>\<open>d[k] = v\<close> is \<open>AList.update k v d\<close> (an existing key keeps its place, a new key
    goes to the end), \<^verbatim>\<open>d[k]\<close> is \<open>dict_get d k\<close>, which raises \<^verbatim>\<open>KeyError\<close>.
  \<^item> An exception is a value of type \<open>exc\<close>; a function that can raise returns
    \<open>exc + 'a\<close> with \<open>Inl\<close> the exception that leaves the function.
  \<^item> A Python \<^verbatim>\<open>float\<close> (and a \<^verbatim>\<open>numpy.float64\<close>) is modelled by the real number
    it denotes; NaN and the infinities are outside the model. The code only compares and
    selects these numbers (the median of three values is one of the three), so no
    rounding takes place in what is modelled.
  \<^item> Output on the console (\<^verbatim>\<open>print\<close>) is not modelled.
\<close>

subsection \<open>Python values and exceptions\<close>

text \<open>The values a JSON request or an uploaded JSON document can hold.\<close>

datatype pyval =
    PNone
  | PBool bool
  | PInt int
  | PFloat real
  | PStr string
  | PList "pyval list"
  | PDict "(string \<times> pyval) list"

datatype exc =
    KeyError string
  | TypeError
  | ValueError
  | IndexError
  | OverflowError
  | NameError string
  | EngineError string

type_synonym 'v dict = "(string \<times> 'v) list"

definition dict_get :: "'v dict \<Rightarrow> string \<Rightarrow> exc + 'v" where
  "dict_get d k = (case map_of d k of None \<Rightarrow> Inl (KeyError k) | Some v \<Rightarrow> Inr v)"

text \<open>\<^verbatim>\<open>{**a, **b}\<close>: a new dict that receives the items of \<open>a\<close>, then those of \<open>b\<close>.\<close>

definition dict_merge :: "'v dict \<Rightarrow> 'v dict \<Rightarrow> 'v dict" where
  "dict_merge a b = fold (\<lambda>(k, v). AList.update k v) (a @ b) []"

subsection \<open>The parameter catalog: \<^verbatim>\<open>get_defaults\<close>\<close>

record parspec =
  best :: real
  minv :: real
  maxv :: real
  name :: string
  tip :: string

definition mkspec :: "real \<Rightarrow> real \<Rightarrow> real \<Rightarrow> string \<Rightarrow> string \<Rightarrow> parspec" where
  "mkspec b lo hi n t = \<lparr>best = b, minv = lo, maxv = hi, name = n, tip = t\<rparr>"

definition max_pop :: real where
  "max_pop = 10000"

definition max_days :: real where
  "max_days = 90"

definition regions :: "(real dict) dict" where
  "regions =
    [(''scale'',       [(''Example'', 1),    (''Seattle'', 25)]),
     (''n'',           [(''Example'', 2000), (''Seattle'', 10000)]),
     (''n_days'',      [(''Example'', 60),   (''Seattle'', 45)]),
     (''n_infected'',  [(''Example'', 10),   (''Seattle'', 4)]),
     (''interv_days'', [(''Example'', 20),   (''Seattle'', 20)]),
     (''interv_effs'', [(''Example'', 1/2),  (''Seattle'', 0)])]"

definition base_sim_pars :: "parspec dict" where
  "base_sim_pars =
    [(''scale'',       mkspec 1    1 1000000  ''Population scale factor''
        ''Multiplier for results (to approximate large populations)''),
     (''n'',           mkspec 5000 1 max_pop  ''Population size''
        ''Number of agents simulated in the model''),
     (''n_infected'',  mkspec 10   1 max_pop  ''Initial infections''
        ''Number of initial seed infections in the model''),
     (''n_days'',      mkspec 90   1 max_days ''Number of days to simulate''
        ''Number of days to run the simulation for''),
     (''interv_days'', mkspec 20   0 max_days ''Intervention start day''
        ''Start day of the intervention (can be blank)''),
     (''interv_effs'', mkspec (9/10) 0 1      ''Intervention effectiveness''
        ''Change in infection rate due to intervention''),
     (''seed'',        mkspec 1    1 100      ''Random seed''
        ''Random number seed (leave blank for random results)'')]"

definition base_epi_pars :: "parspec dict" where
  "base_epi_pars =
    [(''beta'',        mkspec (15/1000) 0 (2/10) ''Beta (infectiousness)''
        ''Probability of infection per contact per day''),
     (''contacts'',    mkspec 20 0 50 ''Number of contacts''
        ''Average number of people each person is in contact with each day''),
     (''serial'',      mkspec 4  1 30 ''Serial interval (days)''
        ''Average number of days between exposure and being infectious''),
     (''incub'',       mkspec 5  1 30 ''Incubation period (days)''
        ''Average number of days between exposure and developing symptoms''),
     (''dur'',         mkspec 8  1 30 ''Infection duration (days)''
        ''Average number of days between infection and recovery (viral shedding period)''),
     (''timetodie'',   mkspec 22 1 60 ''Time until death (days)''
        ''Average number of days between infection and death''),
     (''default_cfr'', mkspec (2/100) 0 1 ''Case fatality rate''
        ''Proportion of people who become infected who die'')]"

text \<open>
  Lines 88-89, \<^verbatim>\<open>for parkey,valuedict in regions.items(): sim_pars[parkey]['best'] = valuedict[region]\<close>.
  The right-hand side is evaluated first, so an unknown region raises \<^verbatim>\<open>KeyError(region)\<close>
  at the first row of the table.
\<close>

fun apply_regions :: "string \<Rightarrow> (real dict) dict \<Rightarrow> parspec dict \<Rightarrow> exc + parspec dict" where
  "apply_regions region [] sim_pars = Inr sim_pars"
| "apply_regions region ((parkey, valuedict) # rest) sim_pars =
     (case dict_get valuedict region of
        Inl e \<Rightarrow> Inl e
      | Inr v \<Rightarrow>
          (case dict_get sim_pars parkey of
             Inl e \<Rightarrow> Inl e
           | Inr spec \<Rightarrow> apply_regions region rest (AList.update parkey (spec\<lparr>best := v\<rparr>) sim_pars)))"

text \<open>The two shapes of the result: one flat dict (\<^verbatim>\<open>merge=True\<close>) or the two groups.\<close>

datatype defaults = Merged "parspec dict" | Grouped "parspec dict" "parspec dict"

definition get_defaults :: "string option \<Rightarrow> bool \<Rightarrow> exc + defaults" where
  "get_defaults region merge =
     (let region = (case region of None \<Rightarrow> ''Example'' | Some r \<Rightarrow> r) in
      case apply_regions region regions base_sim_pars of
        Inl e \<Rightarrow> Inl e
      | Inr sim_pars \<Rightarrow>
          Inr (if merge then Merged (dict_merge sim_pars base_epi_pars)
               else Grouped sim_pars base_epi_pars))"

subsection \<open>What the application takes from its libraries\<close>

text \<open>
  The simulation engine (\<^verbatim>\<open>cv.Sim\<close>, \<^verbatim>\<open>cv.to_plot\<close>), the Python runtime's
  conversions of text and the helper libraries are not part of the file; the model takes
  them as parameters, so every theorem holds whatever they compute.
  After the run the application reads from the engine object its point count, its result
  series, and the two exports.
\<close>

record sim =
  npts :: int
  results :: "(real list) dict"
  xlsx_blob :: string
  json_text :: string

record env =
  str_exc :: "exc \<Rightarrow> string"
    \<comment> \<open>\<^verbatim>\<open>str(E)\<close>\<close>
  float_str :: "string \<Rightarrow> real option"
    \<comment> \<open>\<^verbatim>\<open>float(s)\<close> on a string; \<open>None\<close> when it raises \<^verbatim>\<open>ValueError\<close>\<close>
  int_str :: "string \<Rightarrow> int option"
    \<comment> \<open>\<^verbatim>\<open>int(s)\<close> on a string; \<open>None\<close> when it raises \<^verbatim>\<open>ValueError\<close>\<close>
  keys_str :: "string list \<Rightarrow> string"
    \<comment> \<open>the text of \<^verbatim>\<open>d.keys()\<close> in a formatted string\<close>
  loadjson :: "string \<Rightarrow> exc + pyval"
    \<comment> \<open>\<^verbatim>\<open>sc.loadjson(fname)\<close>\<close>
  to_plot :: "((string \<times> string) list) dict"
    \<comment> \<open>\<^verbatim>\<open>cv.to_plot\<close>: plot title to (result key, label) pairs\<close>
  sim_run :: "pyval dict \<Rightarrow> int option \<Rightarrow> exc option \<times> sim"
    \<comment> \<open>a fresh \<^verbatim>\<open>cv.Sim()\<close> with the given parameters set on top of its own, seeded
        (\<open>None\<close>: \<^verbatim>\<open>set_seed()\<close> with no argument), then \<^verbatim>\<open>sim.run(do_plot=False)\<close>:
        the exception the run raised, if any, and the engine object afterwards\<close>
  uuid :: "nat \<Rightarrow> string"
    \<comment> \<open>the text of the \<open>p\<close>-th \<^verbatim>\<open>sc.uuid()\<close> of the request\<close>
  getdate :: string
    \<comment> \<open>\<^verbatim>\<open>sc.getdate(dateformat='%Y-%b-%d_%H.%M.%S')\<close>\<close>
  b64encode :: "string \<Rightarrow> string"
    \<comment> \<open>\<^verbatim>\<open>base64.b64encode(...).decode("utf-8")\<close>\<close>

subsection \<open>Operations of the Python runtime\<close>

text \<open>Truth value of an object, as \<^verbatim>\<open>if entry['best']:\<close> tests it.\<close>

fun truthy :: "pyval \<Rightarrow> bool" where
  "truthy PNone = False"
| "truthy (PBool b) = b"
| "truthy (PInt i) = (i \<noteq> 0)"
| "truthy (PFloat v) = (v \<noteq> 0)"
| "truthy (PStr s) = (s \<noteq> [])"
| "truthy (PList l) = (l \<noteq> [])"
| "truthy (PDict d) = (d \<noteq> [])"

text \<open>
  \<^verbatim>\<open>float(v)\<close>. An integer too large for a double raises \<^verbatim>\<open>OverflowError\<close>; below that
  bound the model keeps the integer's exact value, which is the double itself up to
  \<open>2^53\<close> in magnitude.
\<close>

fun py_float :: "env \<Rightarrow> pyval \<Rightarrow> exc + real" where
  "py_float env PNone = Inl TypeError"
| "py_float env (PBool b) = Inr (if b then 1 else 0)"
| "py_float env (PInt i) =
     (if \<bar>i\<bar> \<ge> 2 ^ 1024 - 2 ^ 970 then Inl OverflowError else Inr (of_int i))"
| "py_float env (PFloat v) = Inr v"
| "py_float env (PStr s) = (case float_str env s of None \<Rightarrow> Inl ValueError | Some v \<Rightarrow> Inr v)"
| "py_float env (PList l) = Inl TypeError"
| "py_float env (PDict d) = Inl TypeError"

text \<open>\<^verbatim>\<open>int(v)\<close>: a float is truncated towards zero.\<close>

fun py_int :: "env \<Rightarrow> pyval \<Rightarrow> exc + int" where
  "py_int env PNone = Inl TypeError"
| "py_int env (PBool b) = Inr (if b then 1 else 0)"
| "py_int env (PInt i) = Inr i"
| "py_int env (PFloat v) = Inr (if 0 \<le> v then \<lfloor>v\<rfloor> else \<lceil>v\<rceil>)"
| "py_int env (PStr s) = (case int_str env s of None \<Rightarrow> Inl ValueError | Some i \<Rightarrow> Inr i)"
| "py_int env (PList l) = Inl TypeError"
| "py_int env (PDict d) = Inl TypeError"

text \<open>\<^verbatim>\<open>round(v)\<close> of a float: to the nearest integer, a tie to the even one.\<close>

definition py_round :: "real \<Rightarrow> int" where
  "py_round v =
     (let f = \<lfloor>v\<rfloor>; d = v - of_int f in
      if d < 1/2 then f else if 1/2 < d then f + 1 else if even f then f else f + 1)"

text \<open>\<^verbatim>\<open>obj[k]\<close> and \<^verbatim>\<open>obj[k] = v\<close> with a string \<open>k\<close>: only a dict accepts them.\<close>

fun get_item :: "pyval \<Rightarrow> string \<Rightarrow> exc + pyval" where
  "get_item (PDict d) k = dict_get d k"
| "get_item _ k = Inl TypeError"

fun set_item :: "pyval \<Rightarrow> string \<Rightarrow> pyval \<Rightarrow> exc + pyval" where
  "set_item (PDict d) k v = Inr (PDict (AList.update k v d))"
| "set_item _ k v = Inl TypeError"

text \<open>The operand of \<^verbatim>\<open>**\<close> in a dict display must be a mapping.\<close>

fun as_mapping :: "pyval \<Rightarrow> exc + pyval dict" where
  "as_mapping (PDict d) = Inr d"
| "as_mapping _ = Inl TypeError"

text \<open>
  \<^verbatim>\<open>pl.median\<close> (\<^verbatim>\<open>numpy.median\<close>): the middle element of the sorted values, the mean of
  the two middle ones when their number is even. The application calls it on three
  values only.
\<close>

definition median :: "real list \<Rightarrow> real" where
  "median xs =
     (let s = sort xs; n = length s in
      if odd n then s ! (n div 2) else (s ! (n div 2 - 1) + s ! (n div 2)) / 2)"

subsection \<open>\<^verbatim>\<open>upload_pars\<close>\<close>



subsection \<open>\<^verbatim>\<open>run_sim\<close>: reconciliation of the parameters (lines 120-141)\<close>

text \<open>
  Lines 129-134 for one \<open>key\<close> and its \<open>entry\<close>: the value assigned to \<^verbatim>\<open>pars[key]\<close>, or
  the exception raised on the way (unknown key, no \<^verbatim>\<open>best\<close>, failed conversion).
\<close>

definition reconcile_value :: "env \<Rightarrow> parspec dict \<Rightarrow> string \<Rightarrow> pyval \<Rightarrow> exc + pyval" where
  "reconcile_value env defaults key entry =
     (case dict_get defaults key of
        Inl e \<Rightarrow> Inl e
      | Inr spec \<Rightarrow>
          (let minval = minv spec; maxval = maxv spec in
           case get_item entry ''best'' of
             Inl e \<Rightarrow> Inl e
           | Inr b \<Rightarrow>
               if truthy b
               then (case py_float env b of
                       Inl e \<Rightarrow> Inl e
                     | Inr v \<Rightarrow> Inr (PFloat (median [v, minval, maxval])))
               else Inr PNone))"

text \<open>\<^verbatim>\<open>grp[key]['best'] = value\<close> (lines 135-136), for \<open>grp\<close> either of the two groups.\<close>

definition write_best :: "pyval dict \<Rightarrow> string \<Rightarrow> pyval \<Rightarrow> exc + pyval dict" where
  "write_best grp key r =
     (case dict_get grp key of
        Inl e \<Rightarrow> Inl e
      | Inr ent \<Rightarrow>
          (case set_item ent ''best'' r of
             Inl e \<Rightarrow> Inl e
           | Inr ent' \<Rightarrow> Inr (AList.update key ent' grp)))"

text \<open>
  One turn of the loop of line 127 on the local state \<open>(pars, sim_pars, epi_pars)\<close>: the
  exception that leaves the loop body, if any, and the state at that point.
\<close>

type_synonym rstate = "pyval dict \<times> pyval dict \<times> pyval dict"

fun reconcile_key :: "env \<Rightarrow> parspec dict \<Rightarrow> rstate \<Rightarrow> string \<times> pyval \<Rightarrow> exc option \<times> rstate" where
  "reconcile_key env defaults (pars, sim_pars, epi_pars) (key, entry) =
     (case reconcile_value env defaults key entry of
        Inl e \<Rightarrow> (Some e, (pars, sim_pars, epi_pars))
      | Inr r \<Rightarrow>
          (let pars = AList.update key r pars in
           if key \<in> set (map fst sim_pars)
           then (case write_best sim_pars key r of
                   Inl e \<Rightarrow> (Some e, (pars, sim_pars, epi_pars))
                 | Inr sim_pars' \<Rightarrow> (None, (pars, sim_pars', epi_pars)))
           else (case write_best epi_pars key r of
                   Inl e \<Rightarrow> (Some e, (pars, sim_pars, epi_pars))
                 | Inr epi_pars' \<Rightarrow> (None, (pars, sim_pars, epi_pars')))))"

text \<open>The loop: the first exception ends it, the \<^verbatim>\<open>try\<close> encloses the whole loop.\<close>

fun reconcile_loop :: "env \<Rightarrow> parspec dict \<Rightarrow> rstate \<Rightarrow> pyval dict \<Rightarrow> exc option \<times> rstate" where
  "reconcile_loop env defaults st [] = (None, st)"
| "reconcile_loop env defaults st (item # items) =
     (case reconcile_key env defaults st item of
        (Some e, st') \<Rightarrow> (Some e, st')
      | (None, st') \<Rightarrow> reconcile_loop env defaults st' items)"

definition conversion_failed :: "env \<Rightarrow> exc \<Rightarrow> string" where
  "conversion_failed env e = ''Parameter conversion failed! '' @ str_exc env e"

text \<open>
  The \<^verbatim>\<open>try\<close> statement of lines 122-140: the error text, the dict \<^verbatim>\<open>pars\<close> (\<open>None\<close> when
  the name was never bound) and the two groups as the statement leaves them.
  \<^verbatim>\<open>get_defaults(merge=True)\<close> always returns the flat dict.
\<close>

definition reconcile ::
  "env \<Rightarrow> pyval \<Rightarrow> pyval \<Rightarrow> bool \<Rightarrow> string \<times> pyval dict option \<times> pyval \<times> pyval" where
  "reconcile env sim_pars epi_pars verbose =
     (case get_defaults None True of
        Inl e \<Rightarrow> (conversion_failed env e, None, sim_pars, epi_pars)
      | Inr (Grouped s e) \<Rightarrow> (conversion_failed env TypeError, None, sim_pars, epi_pars)
      | Inr (Merged defaults) \<Rightarrow>
          (let pars = [(''verbose'', PBool verbose)] in
           case as_mapping sim_pars of
             Inl e \<Rightarrow> (conversion_failed env e, Some pars, sim_pars, epi_pars)
           | Inr sp \<Rightarrow>
               (case as_mapping epi_pars of
                  Inl e \<Rightarrow> (conversion_failed env e, Some pars, sim_pars, epi_pars)
                | Inr ep \<Rightarrow>
                    (case reconcile_loop env defaults (pars, sp, ep) (dict_merge sp ep) of
                       (None, (pars', sp', ep')) \<Rightarrow> ('''', Some pars', PDict sp', PDict ep')
                     | (Some e, (pars', sp', ep')) \<Rightarrow>
                         (conversion_failed env e, Some pars', PDict sp', PDict ep')))))"

subsection \<open>\<^verbatim>\<open>run_sim\<close>: the response (lines 163-204)\<close>

text \<open>
  A figure is kept as the data handed to plotly, one trace per plotted series; the colour
  of a trace is the \<open>i\<close>-th of the \<open>n\<close> colours of \<^verbatim>\<open>sc.gridcolors(n)\<close>, kept as \<open>(i, n)\<close>.
\<close>

record trace =
  trace_x :: "real list"
  trace_y :: "real list"
  trace_name :: string
  line_color :: "nat \<times> nat"

record figure =
  title :: string
  xaxis_title :: string
  yaxis_title :: string
  traces :: "trace list"

record graph =
  json :: figure
  graph_id :: string

record fileblob =
  filename :: string
  content :: string

record summary =
  days :: int
  cases :: int
  deaths :: int

record run_result =
  err :: string
  out_sim_pars :: pyval
  out_epi_pars :: pyval
  graphs :: "graph list"
  files :: "fileblob dict"
  summary :: summary

text \<open>
  The inner loop of lines 174-177 from index \<open>i\<close> on: each trace reads the series of its
  key, then the series \<^verbatim>\<open>'t'\<close>; a series the engine does not hold raises \<^verbatim>\<open>KeyError\<close>.
\<close>

fun add_traces :: "sim \<Rightarrow> nat \<Rightarrow> nat \<Rightarrow> (string \<times> string) list \<Rightarrow> exc + trace list" where
  "add_traces sm n i [] = Inr []"
| "add_traces sm n i ((key, label) # keylabels) =
     (case dict_get (results sm) key of
        Inl e \<Rightarrow> Inl e
      | Inr y \<Rightarrow>
          (case dict_get (results sm) ''t'' of
             Inl e \<Rightarrow> Inl e
           | Inr x \<Rightarrow>
               (case add_traces sm n (Suc i) keylabels of
                  Inl e \<Rightarrow> Inl e
                | Inr ts \<Rightarrow>
                    Inr (\<lparr>trace_x = x, trace_y = y, trace_name = label, line_color = (i, n)\<rparr> # ts))))"

text \<open>The outer loop of lines 171-179 from index \<open>p\<close> on: one graph per entry of \<^verbatim>\<open>to_plot\<close>.\<close>

fun plot_graphs :: "env \<Rightarrow> sim \<Rightarrow> nat \<Rightarrow> ((string \<times> string) list) dict \<Rightarrow> exc + graph list" where
  "plot_graphs env sm p [] = Inr []"
| "plot_graphs env sm p ((ttl, keylabels) # rest) =
     (case add_traces sm (length keylabels) 0 keylabels of
        Inl e \<Rightarrow> Inl e
      | Inr ts \<Rightarrow>
          (case plot_graphs env sm (Suc p) rest of
             Inl e \<Rightarrow> Inl e
           | Inr gs \<Rightarrow>
               Inr (\<lparr>json = \<lparr>title = ttl, xaxis_title = ''Day'', yaxis_title = ''Count'',
                              traces = ts\<rparr>,
                     graph_id = uuid env p\<rparr> # gs)))"

definition make_files :: "env \<Rightarrow> sim \<Rightarrow> fileblob dict" where
  "make_files env sm =
     (let datestamp = getdate env in
      [(''xlsx'',
        \<lparr>filename = ''COVASim_results_'' @ datestamp @ ''.xlsx'',
         content = ''data:application/vnd.openxmlformats-officedocument.spreadsheetml.sheet;base64,''
                   @ b64encode env (xlsx_blob sm)\<rparr>),
       (''json'',
        \<lparr>filename = ''COVASim_results_'' @ datestamp @ ''.txt'',
         content = ''data:application/text;base64,'' @ b64encode env (json_text sm)\<rparr>)])"

text \<open>\<^verbatim>\<open>sim.results[key][-1]\<close>: the key must be there and the series must not be empty.\<close>

definition last_of :: "sim \<Rightarrow> string \<Rightarrow> exc + real" where
  "last_of sm key =
     (case dict_get (results sm) key of
        Inl e \<Rightarrow> Inl e
      | Inr ys \<Rightarrow> if ys = [] then Inl IndexError else Inr (last ys))"

definition make_summary :: "sim \<Rightarrow> exc + summary" where
  "make_summary sm =
     (case last_of sm ''cum_exposed'' of
        Inl e \<Rightarrow> Inl e
      | Inr c \<Rightarrow>
          (case last_of sm ''cum_deaths'' of
             Inl e \<Rightarrow> Inl e
           | Inr d \<Rightarrow> Inr \<lparr>days = npts sm - 1, cases = py_round c, deaths = py_round d\<rparr>))"

definition assemble :: "env \<Rightarrow> string \<Rightarrow> pyval \<Rightarrow> pyval \<Rightarrow> sim \<Rightarrow> exc + run_result" where
  "assemble env er sim_pars epi_pars sm =
     (case plot_graphs env sm 0 (to_plot env) of
        Inl e \<Rightarrow> Inl e
      | Inr gs \<Rightarrow>
          (case make_summary sm of
             Inl e \<Rightarrow> Inl e
           | Inr sy \<Rightarrow>
               Inr \<lparr>err = er, out_sim_pars = sim_pars, out_epi_pars = epi_pars,
                    graphs = gs, files = make_files env sm, summary = sy\<rparr>))"

subsection \<open>\<^verbatim>\<open>run_sim\<close>\<close>

definition run_failed :: "env \<Rightarrow> exc \<Rightarrow> string" where
  "run_failed env e = ''Sim run failed! ('' @ str_exc env e @ '')''"

text \<open>
  Lines 146-149: \<^verbatim>\<open>pars['seed']\<close> is read without a guard, then converted with \<^verbatim>\<open>int\<close>
  unless it is \<^verbatim>\<open>None\<close>.
\<close>

definition seed_of :: "env \<Rightarrow> pyval dict \<Rightarrow> exc + int option" where
  "seed_of env pars =
     (case dict_get pars ''seed'' of
        Inl e \<Rightarrow> Inl e
      | Inr s \<Rightarrow>
          if s \<noteq> PNone
          then (case py_int env s of Inl e \<Rightarrow> Inl e | Inr i \<Rightarrow> Inr (Some i))
          else Inr None)"

text \<open>
  The whole procedure. The engine receives \<^verbatim>\<open>cfr_by_age = False\<close> and then the dict
  \<^verbatim>\<open>pars\<close> (\<^verbatim>\<open>update_pars\<close>); an exception of its run is caught and appended to the error
  text; everything else that raises leaves \<^verbatim>\<open>run_sim\<close>.
\<close>

definition run_sim :: "env \<Rightarrow> pyval \<Rightarrow> pyval \<Rightarrow> bool \<Rightarrow> exc + run_result" where
  "run_sim env sim_pars epi_pars verbose =
     (case reconcile env sim_pars epi_pars verbose of
        (err1, None, sim_pars', epi_pars') \<Rightarrow> Inl (NameError ''pars'')
      | (err1, Some pars, sim_pars', epi_pars') \<Rightarrow>
          (case seed_of env pars of
             Inl e \<Rightarrow> Inl e
           | Inr seed \<Rightarrow>
               (case sim_run env (dict_merge [(''cfr_by_age'', PBool False)] pars) seed of
                  (None, sm) \<Rightarrow> assemble env err1 sim_pars' epi_pars' sm
                | (Some e, sm) \<Rightarrow> assemble env (err1 @ run_failed env e) sim_pars' epi_pars' sm)))"

subsection \<open>An environment for the examples\<close>

text \<open>
  A small engine and runtime on which the theorems below are run: \<open>demo_float\<close> reads a
  string of decimal digits as \<^verbatim>\<open>float\<close> does and rejects every string with another
  character in it (the examples use no other numeral); the engine \<open>demo_run\<close> fails
  when the population size \<^verbatim>\<open>n\<close> is left to \<^verbatim>\<open>None\<close> and keeps its result table either way;
  \<open>void_run\<close> fails and holds no result at all.
\<close>

definition digit_val :: "char \<Rightarrow> nat option" where
  "digit_val c =
     (let n = of_char c :: nat in if 48 \<le> n \<and> n \<le> 57 then Some (n - 48) else None)"

fun digits_val :: "nat \<Rightarrow> string \<Rightarrow> nat option" where
  "digits_val acc [] = Some acc"
| "digits_val acc (c # cs) =
     (case digit_val c of None \<Rightarrow> None | Some d \<Rightarrow> digits_val (10 * acc + d) cs)"

definition demo_float :: "string \<Rightarrow> real option" where
  "demo_float s = (if s = [] then None else map_option of_nat (digits_val 0 s))"

definition demo_int :: "string \<Rightarrow> int option" where
  "demo_int s = (if s = [] then None else map_option of_nat (digits_val 0 s))"

definition demo_sim :: sim where
  "demo_sim =
     \<lparr>npts = 3,
      results = [(''t'', [0, 1, 2]), (''cum_exposed'', [10, 25/2, 35/2]),
                 (''cum_deaths'', [0, 0, 5/2])],
      xlsx_blob = ''xlsx-bytes'', json_text = ''{}''\<rparr>"

definition void_sim :: sim where
  "void_sim = \<lparr>npts = 0, results = [], xlsx_blob = [], json_text = []\<rparr>"

definition demo_run :: "pyval dict \<Rightarrow> int option \<Rightarrow> exc option \<times> sim" where
  "demo_run pars seed =
     (if map_of pars ''n'' = Some PNone then (Some (EngineError ''no population''), demo_sim)
      else (None, demo_sim))"

definition void_run :: "pyval dict \<Rightarrow> int option \<Rightarrow> exc option \<times> sim" where
  "void_run pars seed = (Some (EngineError ''no population''), void_sim)"

definition demo_str :: "exc \<Rightarrow> string" where
  "demo_str e =
     (case e of
        KeyError k \<Rightarrow> [CHR 0x27] @ k @ [CHR 0x27]
      | NameError n \<Rightarrow> n
      | EngineError m \<Rightarrow> m
      | _ \<Rightarrow> ''error'')"

definition demo_env :: env where
  "demo_env =
     \<lparr>str_exc = demo_str, float_str = demo_float, int_str = demo_int,
      keys_str = concat,
      loadjson = (\<lambda>fname.
        if fname = ''list.json'' then Inr (PList [PStr ''sim_pars'', PStr ''epi_pars''])
        else if fname = ''sim_only.json'' then Inr (PDict [(''sim_pars'', PDict [])])
        else Inr (PDict [(''sim_pars'', PDict []), (''epi_pars'', PDict []),
                         (''notes'', PStr fname)])),
      to_plot = [(''Totals'', [(''cum_exposed'', ''Infections''), (''cum_deaths'', ''Deaths'')])],
      sim_run = demo_run, uuid = (\<lambda>p. replicate (Suc p) CHR ''u''),
      getdate = ''2020-Mar-20_12.00.00'', b64encode = id\<rparr>"

definition void_env :: env where
  "void_env = demo_env\<lparr>sim_run := void_run\<rparr>"

subsection \<open>Predicates of the statements\<close>

text \<open>A catalog entry respects its bounds.\<close>

definition spec_ok :: "parspec \<Rightarrow> bool" where
  "spec_ok s = (minv s \<le> best s \<and> best s \<le> maxv s)"

definition catalog_ok :: "parspec dict \<Rightarrow> bool" where
  "catalog_ok d = list_all (\<lambda>(k, s). spec_ok s) d"

fun defaults_ok :: "defaults \<Rightarrow> bool" where
  "defaults_ok (Merged d) = catalog_ok d"
| "defaults_ok (Grouped s e) = (catalog_ok s \<and> catalog_ok e)"

text \<open>The region names of the table \<open>regions\<close>.\<close>

definition region_names :: "string list" where
  "region_names = remdups (concat (map (\<lambda>(parkey, valuedict). map fst valuedict) regions))"

text \<open>
  The structural group of a region in the words of the specification: the base group with
  \<^verbatim>\<open>best\<close> overwritten by the region's value, for every key of the region table.
\<close>

definition region_catalog :: "string \<Rightarrow> parspec dict" where
  "region_catalog r =
     map (\<lambda>(key, spec).
            (key, case map_of regions key of
                    None \<Rightarrow> spec
                  | Some valuedict \<Rightarrow>
                      (case map_of valuedict r of None \<Rightarrow> spec | Some b \<Rightarrow> spec\<lparr>best := b\<rparr>)))
       base_sim_pars"



text \<open>The dynamic type test \<^verbatim>\<open>isinstance(v, float)\<close>.\<close>

fun is_float :: "pyval \<Rightarrow> bool" where
  "is_float (PFloat v) = True"
| "is_float _ = False"

text \<open>The catalog that \<^verbatim>\<open>run_sim\<close> reads at line 124, \<^verbatim>\<open>get_defaults(merge=True)\<close>.\<close>

definition run_defaults :: "parspec dict" where
  "run_defaults = (case get_defaults None True of Inr (Merged d) \<Rightarrow> d | _ \<Rightarrow> [])"

text \<open>
  The engine object holds every series that lines 171-202 read: for each plotted pair its
  key and the day index \<^verbatim>\<open>'t'\<close>, and the two cumulative series with at least one point.
\<close>

definition has_series :: "sim \<Rightarrow> string \<Rightarrow> bool" where
  "has_series sm key = (key \<in> set (map fst (results sm)))"

definition has_points :: "sim \<Rightarrow> string \<Rightarrow> bool" where
  "has_points sm key = (case map_of (results sm) key of None \<Rightarrow> False | Some ys \<Rightarrow> ys \<noteq> [])"

definition series_ok :: "env \<Rightarrow> sim \<Rightarrow> bool" where
  "series_ok env sm =
     (list_all (\<lambda>(ttl, keylabels).
          list_all (\<lambda>(key, label). has_series sm key \<and> has_series sm ''t'') keylabels)
        (to_plot env)
      \<and> has_points sm ''cum_exposed'' \<and> has_points sm ''cum_deaths'')"

section \<open>Properties\<close>

subsection \<open>The catalog\<close>

lemmas catalog_defs = regions_def base_sim_pars_def base_epi_pars_def mkspec_def
  max_pop_def max_days_def dict_get_def dict_merge_def

lemma region_names_eq: "region_names = [''Example'', ''Seattle'']"
  by (simp add: region_names_def regions_def)

lemma base_catalogs_ok: "catalog_ok base_sim_pars \<and> catalog_ok base_epi_pars"
  by (simp add: catalog_ok_def spec_ok_def base_sim_pars_def base_epi_pars_def mkspec_def
      max_pop_def max_days_def)

lemma apply_regions_Example:
  "\<exists>c. apply_regions ''Example'' regions base_sim_pars = Inr c \<and> catalog_ok c
     \<and> catalog_ok (dict_merge c base_epi_pars)"
  by (simp add: catalog_defs catalog_ok_def spec_ok_def)

lemma apply_regions_Seattle:
  "\<exists>c. apply_regions ''Seattle'' regions base_sim_pars = Inr c \<and> catalog_ok c
     \<and> catalog_ok (dict_merge c base_epi_pars)"
  by (simp add: catalog_defs catalog_ok_def spec_ok_def)

lemma apply_regions_unknown:
  "r \<noteq> ''Example'' \<Longrightarrow> r \<noteq> ''Seattle'' \<Longrightarrow> apply_regions r regions base_sim_pars = Inl (KeyError r)"
  by (simp add: regions_def dict_get_def)

lemma get_defaults_known:
  assumes "r = ''Example'' \<or> r = ''Seattle''"
  shows "\<exists>c. get_defaults (Some r) merge = Inr c \<and> defaults_ok c"
proof -
  from assms apply_regions_Example apply_regions_Seattle
  obtain c where c: "apply_regions r regions base_sim_pars = Inr c" "catalog_ok c"
    "catalog_ok (dict_merge c base_epi_pars)"
    by blast
  show ?thesis
    using c base_catalogs_ok by (cases merge) (simp_all add: get_defaults_def)
qed

lemma get_defaults_None: "get_defaults None merge = get_defaults (Some ''Example'') merge"
  by (simp add: get_defaults_def)

lemma get_defaults_run: "\<exists>d. get_defaults None True = Inr (Merged d) \<and> catalog_ok d"
  using apply_regions_Example by (auto simp: get_defaults_def)

text \<open>
  Claim C7. Every entry of the catalog lies within its bounds, \<open>min \<le> best \<le> max\<close>: in
  the two base tables as they are written (before any region is applied), and in the
  catalog that \<^verbatim>\<open>get_defaults\<close> returns for no region and for each region of the region
  table, merged or not.
\<close>

theorem catalog_within_bounds:
  assumes "region = None \<or> region \<in> Some ` set region_names"
  shows "catalog_ok base_sim_pars \<and> catalog_ok base_epi_pars
    \<and> (\<exists>c. get_defaults region merge = Inr c \<and> defaults_ok c)"
proof -
  from assms have "region = None \<or> region = Some ''Example'' \<or> region = Some ''Seattle''"
    by (auto simp: region_names_eq)
  then have "\<exists>c. get_defaults region merge = Inr c \<and> defaults_ok c"
    using get_defaults_known [of "''Example''" merge] get_defaults_known [of "''Seattle''" merge]
    by (auto simp: get_defaults_None)
  with base_catalogs_ok show ?thesis by simp
qed

theorem catalog_within_bounds_witness:
  "Some ''Seattle'' \<in> Some ` set region_names
   \<and> catalog_ok base_sim_pars \<and> catalog_ok base_epi_pars
   \<and> (\<exists>c. get_defaults (Some ''Seattle'') False = Inr c \<and> defaults_ok c)"
proof -
  have h: "Some ''Seattle'' \<in> Some ` set region_names"
    by (simp add: region_names_def regions_def)
  show ?thesis using h catalog_within_bounds [of "Some ''Seattle''" False] by simp
qed

text \<open>
  Claim C5, as stated, fails: a region name that the table does not hold makes
  \<^verbatim>\<open>valuedict[region]\<close> raise \<^verbatim>\<open>KeyError\<close>; only the absent region (\<^verbatim>\<open>None\<close>) falls back
  to \<^verbatim>\<open>'Example'\<close>.
\<close>

theorem get_defaults_unknown_region_counterexample:
  "get_defaults (Some ''Wuhan'') False = Inl (KeyError ''Wuhan'')"
  by (simp add: get_defaults_def apply_regions_unknown)

lemma apply_regions_catalog:
  "r = ''Example'' \<or> r = ''Seattle'' \<Longrightarrow>
     apply_regions r regions base_sim_pars = Inr (region_catalog r)"
  by (auto simp: region_catalog_def catalog_defs)

text \<open>
  Claim C5, amended. \<^verbatim>\<open>get_defaults\<close> with no region is \<^verbatim>\<open>get_defaults\<close> for the region
  \<^verbatim>\<open>'Example'\<close>; for a region name of the region table it returns the catalog whose
  structural group is the base group with that region's \<^verbatim>\<open>best\<close> values (merged with
  the epidemiological group, or beside it); for every other region name it raises
  \<^verbatim>\<open>KeyError\<close> with that name.
\<close>

theorem get_defaults_by_region:
  "get_defaults None merge = get_defaults (Some ''Example'') merge
   \<and> (if r \<in> set region_names
       then get_defaults (Some r) merge
              = Inr (if merge then Merged (dict_merge (region_catalog r) base_epi_pars)
                     else Grouped (region_catalog r) base_epi_pars)
       else get_defaults (Some r) merge = Inl (KeyError r))"
  using apply_regions_catalog [of r]
  by (auto simp: get_defaults_None region_names_eq get_defaults_def apply_regions_unknown)

theorem get_defaults_by_region_witness:
  "get_defaults None True = get_defaults (Some ''Example'') True
   \<and> ''Seattle'' \<in> set region_names
   \<and> get_defaults (Some ''Seattle'') False
       = Inr (Grouped (region_catalog ''Seattle'') base_epi_pars)
   \<and> map (\<lambda>(key, spec). (key, best spec)) (region_catalog ''Seattle'')
       = [(''scale'', 25), (''n'', 10000), (''n_infected'', 4), (''n_days'', 45),
          (''interv_days'', 20), (''interv_effs'', 0), (''seed'', 1)]
   \<and> ''Atlantis'' \<notin> set region_names
   \<and> get_defaults (Some ''Atlantis'') True = Inl (KeyError ''Atlantis'')"
proof -
  have "map (\<lambda>(key, spec). (key, best spec)) (region_catalog ''Seattle'')
       = [(''scale'', 25), (''n'', 10000), (''n_infected'', 4), (''n_days'', 45),
          (''interv_days'', 20), (''interv_effs'', 0), (''seed'', 1)]"
    by (simp add: region_catalog_def catalog_defs)
  with get_defaults_by_region [of False "''Seattle''"] get_defaults_by_region [of True "''Atlantis''"]
  show ?thesis
    by (simp add: region_names_def regions_def)
qed

subsection \<open>The uploaded document\<close>




subsection \<open>\<^verbatim>\<open>run_sim\<close> as a whole\<close>

text \<open>
  Claim C3. The claim says that \<^verbatim>\<open>run_sim\<close> returns a result for every input. With the
  default arguments of its own signature (\<^verbatim>\<open>sim_pars=None, epi_pars=None\<close>) the merge of
  line 127 raises inside the \<^verbatim>\<open>try\<close>, the error text is recorded, and then line 146
  reads \<^verbatim>\<open>pars['seed']\<close>, which was never set: \<^verbatim>\<open>KeyError\<close> leaves \<^verbatim>\<open>run_sim\<close>, whatever
  the engine.
\<close>

theorem run_sim_default_arguments_raise:
  "run_sim env PNone PNone verbose = Inl (KeyError ''seed'')"
proof -
  obtain d where "get_defaults None True = Inr (Merged d)"
    using get_defaults_run by blast
  then show ?thesis
    by (simp add: run_sim_def reconcile_def seed_of_def dict_get_def)
qed

subsection \<open>Medians, dicts and the loop\<close>

lemma median3_clamp:
  assumes "lo \<le> hi"
  shows "median [v, lo, hi] = (if v < lo then lo else if hi < v then hi else v)"
  using assms by (auto simp: median_def)

lemma median3_fixed: "lo \<le> v \<Longrightarrow> v \<le> hi \<Longrightarrow> median [v, lo, hi] = v"
  by (auto simp: median_def)

lemma median3_bounds: "lo \<le> hi \<Longrightarrow> lo \<le> median [v, lo, hi] \<and> median [v, lo, hi] \<le> hi"
  by (auto simp: median_def)

lemma catalog_ok_lookup:
  "catalog_ok d \<Longrightarrow> map_of d k = Some s \<Longrightarrow> minv s \<le> maxv s"
  by (induction d) (auto simp: catalog_ok_def spec_ok_def split: if_splits)

lemma distinct_fold_update:
  "distinct (map fst acc) \<Longrightarrow> distinct (map fst (fold (\<lambda>(k, v). AList.update k v) xs acc))"
  by (induction xs arbitrary: acc) (auto simp: distinct_update)

lemma distinct_dict_merge: "distinct (map fst (dict_merge a b))"
  by (simp add: dict_merge_def distinct_fold_update)

lemma reconcile_loop_append:
  "reconcile_loop env d st (xs @ ys) =
     (case reconcile_loop env d st xs of
        (Some e, st') \<Rightarrow> (Some e, st')
      | (None, st') \<Rightarrow> reconcile_loop env d st' ys)"
  by (induction xs arbitrary: st) (auto split: prod.splits option.splits)

subsection \<open>Reconciliation\<close>

lemmas run_defs = reconcile_def get_defaults_def catalog_defs reconcile_value_def write_best_def
  conversion_failed_def demo_env_def demo_str_def demo_float_def digit_val_def

lemma reconcile_value_shape:
  assumes "reconcile_value env d k e = Inr r"
  shows "r = PNone \<or> (\<exists>x. r = PFloat x)"
  using assms
  by (auto simp: reconcile_value_def Let_def split: sum.splits if_splits)

lemma reconcile_value_truthy:
  assumes "reconcile_value env d k e = Inr r" "get_item e ''best'' = Inr b" "truthy b"
  shows "\<exists>spec v. map_of d k = Some spec \<and> py_float env b = Inr v
            \<and> r = PFloat (median [v, minv spec, maxv spec])"
  using assms
  by (auto simp: reconcile_value_def dict_get_def Let_def split: sum.splits option.splits)

lemma reconcile_key_pars:
  assumes "reconcile_key env d (pars, sp, ep) (k, e) = (eo, (pars', sp', ep'))"
  shows "pars' = pars \<or> (\<exists>r. reconcile_value env d k e = Inr r \<and> pars' = AList.update k r pars)"
  using assms by (auto simp: Let_def split: sum.splits if_splits)

lemma reconcile_loop_pars:
  assumes "reconcile_loop env d (pars, sp, ep) ms = (eo, (pars', sp', ep'))"
    and "map_of pars' k = Some r" and "map_of pars k \<noteq> Some r"
  shows "\<exists>e. (k, e) \<in> set ms \<and> reconcile_value env d k e = Inr r"
  using assms
proof (induction ms arbitrary: pars sp ep)
  case Nil
  then show ?case by simp
next
  case (Cons item ms)
  obtain k1 e1 where item: "item = (k1, e1)" by (cases item)
  obtain eo1 pars1 sp1 ep1 where
    step: "reconcile_key env d (pars, sp, ep) (k1, e1) = (eo1, (pars1, sp1, ep1))"
    by (metis prod_cases3)
  from reconcile_key_pars [OF step]
  have p1: "pars1 = pars \<or> (\<exists>r1. reconcile_value env d k1 e1 = Inr r1 \<and> pars1 = AList.update k1 r1 pars)" .
  show ?case
  proof (cases eo1)
    case (Some x)
    with Cons.prems step item have "pars' = pars1" by simp
    with p1 Cons.prems(2,3) item show ?thesis
      by (auto simp: update_conv' split: if_splits)
  next
    case None
    with Cons.prems(1) step item
    have rest: "reconcile_loop env d (pars1, sp1, ep1) ms = (eo, (pars', sp', ep'))" by simp
    show ?thesis
    proof (cases "map_of pars1 k = Some r")
      case True
      with p1 Cons.prems(3) item show ?thesis
        by (auto simp: update_conv' split: if_splits)
    next
      case False
      from Cons.IH [OF rest Cons.prems(2) False] show ?thesis by auto
    qed
  qed
qed

lemma reconcile_loop_fails:
  assumes "(k, e) \<in> set ms" and "reconcile_value env d k e = Inl x"
  shows "\<exists>y. fst (reconcile_loop env d st ms) = Some y"
  using assms
proof (induction ms arbitrary: st)
  case Nil
  then show ?case by simp
next
  case (Cons item ms)
  obtain pars sp ep where st: "st = (pars, sp, ep)" by (cases st)
  show ?case
  proof (cases "item = (k, e)")
    case True
    with Cons.prems st show ?thesis by simp
  next
    case False
    with Cons.prems have "(k, e) \<in> set ms" by simp
    from Cons.IH [OF this Cons.prems(2)] show ?thesis
      by (auto split: prod.splits option.splits)
  qed
qed

lemma reconcile_dicts:
  assumes "get_defaults None True = Inr (Merged d)"
  shows "reconcile env (PDict sp) (PDict ep) verbose =
     (case reconcile_loop env d ([(''verbose'', PBool verbose)], sp, ep) (dict_merge sp ep) of
        (None, (p, s, e)) \<Rightarrow> ('''', Some p, PDict s, PDict e)
      | (Some x, (p, s, e)) \<Rightarrow> (conversion_failed env x, Some p, PDict s, PDict e))"
  using assms by (simp add: reconcile_def)

lemma conversion_failed_nonempty: "conversion_failed env x \<noteq> []"
  by (simp add: conversion_failed_def)

lemma stored_value_from_catalog:
  assumes "reconcile env (PDict sp) (PDict ep) verbose = (err1, Some pars, sim_pars', epi_pars')"
    and "map_of (dict_merge sp ep) k = Some entry"
    and "get_item entry ''best'' = Inr b" and "truthy b"
    and "map_of pars k = Some r" and "k \<noteq> ''verbose''"
  shows "\<exists>defaults spec v.
           get_defaults None True = Inr (Merged defaults) \<and> map_of defaults k = Some spec
         \<and> py_float env b = Inr v
         \<and> r = PFloat (median [v, minv spec, maxv spec])
         \<and> minv spec \<le> maxv spec
         \<and> r = PFloat (if v < minv spec then minv spec else if maxv spec < v then maxv spec else v)"
proof -
  obtain d where d: "get_defaults None True = Inr (Merged d)" "catalog_ok d"
    using get_defaults_run by blast
  obtain eo p s e where
    loop: "reconcile_loop env d ([(''verbose'', PBool verbose)], sp, ep) (dict_merge sp ep) = (eo, (p, s, e))"
    by (metis prod_cases3)
  with assms(1) d(1) have "p = pars"
    by (cases eo) (simp_all add: reconcile_dicts)
  with loop have loop': "reconcile_loop env d ([(''verbose'', PBool verbose)], sp, ep)
      (dict_merge sp ep) = (eo, (pars, s, e))" by simp
  from assms(6) have init: "map_of [(''verbose'', PBool verbose)] k \<noteq> Some r" by simp
  from reconcile_loop_pars [OF loop' assms(5) init]
  obtain e' where e': "(k, e') \<in> set (dict_merge sp ep)" "reconcile_value env d k e' = Inr r"
    by blast
  from e'(1) assms(2) have "e' = entry"
    using distinct_dict_merge [of sp ep] by simp
  with e'(2) assms(3,4)
  obtain spec v where sv: "map_of d k = Some spec" "py_float env b = Inr v"
    "r = PFloat (median [v, minv spec, maxv spec])"
    using reconcile_value_truthy by blast
  from catalog_ok_lookup [OF d(2) sv(1)] have le: "minv spec \<le> maxv spec" .
  from sv le d(1) show ?thesis
    by (auto simp: median3_clamp)
qed


lemma reconcile_value_float_fails:
  assumes "get_item e ''best'' = Inr b" "truthy b" "py_float env b = Inl x"
  shows "\<exists>y. reconcile_value env d k e = Inl y"
  using assms by (auto simp: reconcile_value_def Let_def split: sum.splits)

lemma stored_values_are_floats:
  assumes "reconcile env (PDict sp) (PDict ep) verbose = (err1, Some pars, sim_pars', epi_pars')"
  shows "(\<forall>k r. k \<noteq> ''verbose'' \<and> map_of pars k = Some r \<and> r \<noteq> PNone \<longrightarrow> is_float r)
       \<and> (\<forall>k entry b. map_of (dict_merge sp ep) k = Some entry \<and> k \<noteq> ''verbose''
              \<and> get_item entry ''best'' = Inr b \<and> truthy b \<longrightarrow>
            (case py_float env b of
               Inr v \<Rightarrow> \<forall>r. map_of pars k = Some r \<longrightarrow>
                          (\<exists>defaults spec. get_defaults None True = Inr (Merged defaults)
                            \<and> map_of defaults k = Some spec
                            \<and> r = PFloat (median [v, minv spec, maxv spec]))
             | Inl x \<Rightarrow> err1 \<noteq> [] \<and> map_of pars k = None))"
proof -
  obtain d where d: "get_defaults None True = Inr (Merged d)" "catalog_ok d"
    using get_defaults_run by blast
  obtain eo p s e where
    loop: "reconcile_loop env d ([(''verbose'', PBool verbose)], sp, ep) (dict_merge sp ep) = (eo, (p, s, e))"
    by (metis prod_cases3)
  from loop assms d(1) have p: "p = pars"
    by (cases eo) (simp_all add: reconcile_dicts)
  from loop assms d(1) have err: "err1 \<noteq> []" if "eo \<noteq> None"
    using that conversion_failed_nonempty [of env] by (cases eo) (auto simp: reconcile_dicts)
  from loop p have loop': "reconcile_loop env d ([(''verbose'', PBool verbose)], sp, ep)
      (dict_merge sp ep) = (eo, (pars, s, e))" by simp
  have val: "\<exists>e'. (k, e') \<in> set (dict_merge sp ep) \<and> reconcile_value env d k e' = Inr r"
    if "k \<noteq> ''verbose''" "map_of pars k = Some r" for k r
  proof -
    from that(1) have "map_of [(''verbose'', PBool verbose)] k \<noteq> Some r" by simp
    from reconcile_loop_pars [OF loop' that(2) this] show ?thesis .
  qed
  have a: "is_float r" if "k \<noteq> ''verbose''" "map_of pars k = Some r" "r \<noteq> PNone" for k r
  proof -
    from val [OF that(1,2)] obtain e' where "reconcile_value env d k e' = Inr r" by blast
    from reconcile_value_shape [OF this] that(3) show ?thesis by auto
  qed
  have b: "case py_float env b of
             Inr v \<Rightarrow> \<forall>r. map_of pars k = Some r \<longrightarrow>
                        (\<exists>defaults spec. get_defaults None True = Inr (Merged defaults)
                            \<and> map_of defaults k = Some spec
                            \<and> r = PFloat (median [v, minv spec, maxv spec]))
           | Inl x \<Rightarrow> err1 \<noteq> [] \<and> map_of pars k = None"
    if m: "map_of (dict_merge sp ep) k = Some entry" and k: "k \<noteq> ''verbose''"
      and g: "get_item entry ''best'' = Inr b" and t: "truthy b" for k entry b
  proof (cases "py_float env b")
    case (Inr v)
    have "\<exists>defaults spec. get_defaults None True = Inr (Merged defaults)
            \<and> map_of defaults k = Some spec
            \<and> r = PFloat (median [v, minv spec, maxv spec])" if r: "map_of pars k = Some r" for r
    proof -
      from val [OF k r] obtain e' where
        e': "(k, e') \<in> set (dict_merge sp ep)" "reconcile_value env d k e' = Inr r" by blast
      from e'(1) m have "e' = entry" using distinct_dict_merge [of sp ep] by simp
      with e'(2) have "reconcile_value env d k entry = Inr r" by simp
      from reconcile_value_truthy [OF this g t] obtain spec :: parspec and v' where
        sv: "map_of d k = Some spec" "py_float env b = Inr v'"
        "r = PFloat (median [v', minv spec, maxv spec])" by blast
      from sv(2) Inr have "v' = v" by simp
      with sv(1,3) d(1) show ?thesis by blast
    qed
    with Inr show ?thesis by simp
  next
    case (Inl x)
    from reconcile_value_float_fails [OF g t Inl]
    obtain y where y: "reconcile_value env d k entry = Inl y" by blast
    from m have mem: "(k, entry) \<in> set (dict_merge sp ep)" by (rule map_of_SomeD)
    from reconcile_loop_fails [OF mem y, of "([(''verbose'', PBool verbose)], sp, ep)"] loop'
    have "eo \<noteq> None" by auto
    then have e1: "err1 \<noteq> []" by (rule err)
    have "map_of pars k = None"
    proof (rule ccontr)
      assume "map_of pars k \<noteq> None"
      then obtain r where r: "map_of pars k = Some r" by auto
      from val [OF k r] obtain e' where
        e': "(k, e') \<in> set (dict_merge sp ep)" "reconcile_value env d k e' = Inr r" by blast
      from e'(1) m have "e' = entry" using distinct_dict_merge [of sp ep] by simp
      with e'(2) y show False by simp
    qed
    with e1 Inl show ?thesis by simp
  qed
  from a b show ?thesis by blast
qed


lemma write_best_frame:
  assumes "write_best g k r = Inr g'" and "k' \<noteq> k"
  shows "map_of g' k' = map_of g k'"
  using assms by (auto simp: write_best_def update_conv' split: sum.splits)

lemma reconcile_key_frame:
  assumes "reconcile_key env d (pars, sp, ep) (k, e) = (eo, (pars', sp', ep'))" and "k' \<noteq> k"
  shows "map_of pars' k' = map_of pars k' \<and> map_of sp' k' = map_of sp k'
       \<and> map_of ep' k' = map_of ep k'"
  using assms
  by (auto simp: Let_def update_conv' write_best_frame split: sum.splits if_splits)

lemma reconcile_loop_frame:
  assumes "reconcile_loop env d (pars, sp, ep) ms = (eo, (pars', sp', ep'))"
    and "k' \<notin> fst ` set ms"
  shows "map_of pars' k' = map_of pars k' \<and> map_of sp' k' = map_of sp k'
       \<and> map_of ep' k' = map_of ep k'"
  using assms
proof (induction ms arbitrary: pars sp ep)
  case Nil
  then show ?case by simp
next
  case (Cons item ms)
  obtain k1 e1 where item: "item = (k1, e1)" by (cases item)
  obtain eo1 pars1 sp1 ep1 where
    step: "reconcile_key env d (pars, sp, ep) (k1, e1) = (eo1, (pars1, sp1, ep1))"
    by (metis prod_cases3)
  from Cons.prems(2) item have ne: "k' \<noteq> k1" and rest: "k' \<notin> fst ` set ms" by auto
  note fr = reconcile_key_frame [OF step ne]
  show ?case
  proof (cases eo1)
    case (Some x)
    with Cons.prems(1) step item fr show ?thesis by simp
  next
    case None
    with Cons.prems(1) step item
    have "reconcile_loop env d (pars1, sp1, ep1) ms = (eo, (pars', sp', ep'))" by simp
    from Cons.IH [OF this rest] fr show ?thesis by simp
  qed
qed

lemma reconcile_key_done:
  assumes "reconcile_key env d (pars, sp, ep) (k, e) = (None, (pars', sp', ep'))"
  shows "\<exists>r. reconcile_value env d k e = Inr r \<and> map_of pars' k = Some r"
  using assms by (auto simp: Let_def update_conv' split: sum.splits if_splits)

lemma reconcile_loop_done:
  assumes "reconcile_loop env d (pars, sp, ep) ms = (None, (pars', sp', ep'))"
    and "distinct (map fst ms)" and "(k, e) \<in> set ms"
  shows "\<exists>r. reconcile_value env d k e = Inr r \<and> map_of pars' k = Some r"
  using assms
proof (induction ms arbitrary: pars sp ep)
  case Nil
  then show ?case by simp
next
  case (Cons item ms)
  obtain k1 e1 where item: "item = (k1, e1)" by (cases item)
  obtain eo1 pars1 sp1 ep1 where
    step: "reconcile_key env d (pars, sp, ep) (k1, e1) = (eo1, (pars1, sp1, ep1))"
    by (metis prod_cases3)
  from Cons.prems(1) step item have eo1: "eo1 = None"
    by (cases eo1) simp_all
  with Cons.prems(1) step item
  have rest: "reconcile_loop env d (pars1, sp1, ep1) ms = (None, (pars', sp', ep'))" by simp
  show ?case
  proof (cases "(k, e) = (k1, e1)")
    case True
    from Cons.prems(2) item have "k1 \<notin> fst ` set ms" by auto
    from reconcile_loop_frame [OF rest this] have "map_of pars' k1 = map_of pars1 k1" by simp
    with reconcile_key_done [OF step [unfolded eo1]] True show ?thesis by auto
  next
    case False
    with Cons.prems(3) item have "(k, e) \<in> set ms" by auto
    moreover from Cons.prems(2) have "distinct (map fst ms)" by simp
    ultimately show ?thesis using Cons.IH [OF rest] by blast
  qed
qed

lemma reconcile_value_unknown:
  "map_of d k = None \<Longrightarrow> reconcile_value env d k e = Inl (KeyError k)"
  by (simp add: reconcile_value_def dict_get_def)

lemma get_defaults_run_defaults: "get_defaults None True = Inr (Merged run_defaults)"
  using get_defaults_run by (auto simp: run_defaults_def)

text \<open>
  Claim C2, as stated, fails: the \<^verbatim>\<open>try\<close> encloses the whole loop, so the \<^verbatim>\<open>KeyError\<close> of
  an unknown key ends the loop. With the unknown key first, the key \<^verbatim>\<open>n\<close> after it is
  not reconciled: nothing is stored for it and its \<^verbatim>\<open>best\<close> stays out of range.
\<close>

theorem reconcile_unknown_key_counterexample:
  "reconcile demo_env
      (PDict [(''bogus'', PDict [(''best'', PInt 5)]), (''n'', PDict [(''best'', PInt 50000)])])
      (PDict []) True
   = (''Parameter conversion failed! '' @ [CHR 0x27] @ ''bogus'' @ [CHR 0x27],
      Some [(''verbose'', PBool True)],
      PDict [(''bogus'', PDict [(''best'', PInt 5)]), (''n'', PDict [(''best'', PInt 50000)])],
      PDict [])
   \<and> map_of [(''verbose'', PBool True)] ''n'' = None"
  by (simp add: run_defs median_def)

text \<open>
  Claim C2, amended. When the catalog has no entry for a key \<open>k\<close> of the request and the
  keys before \<open>k\<close> reconcile without error, the reconciliation ends at \<open>k\<close>: the
  \<^verbatim>\<open>KeyError\<close> is recorded in the error text, which is not empty; every key before \<open>k\<close>
  has its reconciled value in \<^verbatim>\<open>pars\<close>; no key after \<open>k\<close> is processed (nothing is
  stored for it and its entry is left as it was).
\<close>

theorem reconcile_stops_at_unknown_key:
  assumes "dict_merge sp ep = pre @ (k, entry) # post"
    and "map_of run_defaults k = None"
    and "reconcile_loop env run_defaults ([(''verbose'', PBool verbose)], sp, ep) pre
           = (None, (pars1, sp1, ep1))"
  shows "reconcile env (PDict sp) (PDict ep) verbose
           = (conversion_failed env (KeyError k), Some pars1, PDict sp1, PDict ep1)
       \<and> conversion_failed env (KeyError k) \<noteq> []
       \<and> (\<forall>(k', e') \<in> set pre.
             \<exists>r. reconcile_value env run_defaults k' e' = Inr r \<and> map_of pars1 k' = Some r)
       \<and> (\<forall>(k', e') \<in> set post.
             map_of sp1 k' = map_of sp k' \<and> map_of ep1 k' = map_of ep k'
           \<and> (k' \<noteq> ''verbose'' \<longrightarrow> map_of pars1 k' = None))"
proof -
  let ?st = "([(''verbose'', PBool verbose)], sp, ep)"
  note defs = get_defaults_run_defaults
  note m = assms(1)
  note u = assms(2)
  note l = assms(3)
  from distinct_dict_merge [of sp ep] m
  have dist: "distinct (map fst (pre @ (k, entry) # post))" by simp
  have step: "reconcile_key env run_defaults (pars1, sp1, ep1) (k, entry)
                = (Some (KeyError k), (pars1, sp1, ep1))"
    by (simp add: reconcile_value_unknown [OF u])
  have "reconcile_loop env run_defaults ?st (dict_merge sp ep) = (Some (KeyError k), (pars1, sp1, ep1))"
    by (simp add: m l reconcile_loop_append step del: reconcile_key.simps)
  with defs have a: "reconcile env (PDict sp) (PDict ep) verbose
           = (conversion_failed env (KeyError k), Some pars1, PDict sp1, PDict ep1)"
    by (simp add: reconcile_dicts)
  have b: "\<exists>r. reconcile_value env run_defaults k' e' = Inr r \<and> map_of pars1 k' = Some r"
    if "(k', e') \<in> set pre" for k' e'
  proof -
    from dist have "distinct (map fst pre)" by simp
    from reconcile_loop_done [OF l this that] show ?thesis .
  qed
  have c: "map_of sp1 k' = map_of sp k' \<and> map_of ep1 k' = map_of ep k'
           \<and> (k' \<noteq> ''verbose'' \<longrightarrow> map_of pars1 k' = None)"
    if "(k', e') \<in> set post" for k' e'
  proof -
    from that have "k' \<in> fst ` set post" by (rule rev_image_eqI) simp
    with dist have "k' \<notin> fst ` set pre" by auto
    from reconcile_loop_frame [OF l this] show ?thesis by simp
  qed
  from b have b': "\<forall>(k', e') \<in> set pre.
             \<exists>r. reconcile_value env run_defaults k' e' = Inr r \<and> map_of pars1 k' = Some r"
    by blast
  from c have c': "\<forall>(k', e') \<in> set post.
             map_of sp1 k' = map_of sp k' \<and> map_of ep1 k' = map_of ep k'
           \<and> (k' \<noteq> ''verbose'' \<longrightarrow> map_of pars1 k' = None)"
    by blast
  show ?thesis
    by (rule conjI [OF a conjI [OF conversion_failed_nonempty conjI [OF b' c']]])
qed


theorem reconcile_stops_at_unknown_key_witness:
  "dict_merge [(''n'', PDict [(''best'', PInt 50000)]), (''bogus'', PDict [(''best'', PInt 5)]),
               (''seed'', PDict [(''best'', PInt 3)])] []
     = [(''n'', PDict [(''best'', PInt 50000)])] @ (''bogus'', PDict [(''best'', PInt 5)])
        # [(''seed'', PDict [(''best'', PInt 3)])]
   \<and> map_of run_defaults ''bogus'' = None
   \<and> reconcile_loop demo_env run_defaults
        ([(''verbose'', PBool True)],
         [(''n'', PDict [(''best'', PInt 50000)]), (''bogus'', PDict [(''best'', PInt 5)]),
          (''seed'', PDict [(''best'', PInt 3)])], [])
        [(''n'', PDict [(''best'', PInt 50000)])]
     = (None, ([(''verbose'', PBool True), (''n'', PFloat 10000)],
               [(''n'', PDict [(''best'', PFloat 10000)]), (''bogus'', PDict [(''best'', PInt 5)]),
                (''seed'', PDict [(''best'', PInt 3)])], []))
   \<and> reconcile demo_env
        (PDict [(''n'', PDict [(''best'', PInt 50000)]), (''bogus'', PDict [(''best'', PInt 5)]),
                (''seed'', PDict [(''best'', PInt 3)])]) (PDict []) True
     = (conversion_failed demo_env (KeyError ''bogus''),
        Some [(''verbose'', PBool True), (''n'', PFloat 10000)],
        PDict [(''n'', PDict [(''best'', PFloat 10000)]), (''bogus'', PDict [(''best'', PInt 5)]),
               (''seed'', PDict [(''best'', PInt 3)])], PDict [])
   \<and> conversion_failed demo_env (KeyError ''bogus'') \<noteq> []
   \<and> map_of [(''verbose'', PBool True), (''n'', PFloat 10000)] ''n'' = Some (PFloat 10000)
   \<and> map_of [(''verbose'', PBool True), (''n'', PFloat 10000)] ''seed'' = None"
proof -
  let ?sp = "[(''n'', PDict [(''best'', PInt 50000)]), (''bogus'', PDict [(''best'', PInt 5)]),
               (''seed'', PDict [(''best'', PInt 3)])]"
  have h1: "dict_merge ?sp []
     = [(''n'', PDict [(''best'', PInt 50000)])] @ (''bogus'', PDict [(''best'', PInt 5)])
        # [(''seed'', PDict [(''best'', PInt 3)])]"
    by (simp add: dict_merge_def)
  have h2: "map_of run_defaults ''bogus'' = None"
    by (simp add: run_defaults_def get_defaults_def catalog_defs)
  have h3: "reconcile_loop demo_env run_defaults ([(''verbose'', PBool True)], ?sp, [])
        [(''n'', PDict [(''best'', PInt 50000)])]
     = (None, ([(''verbose'', PBool True), (''n'', PFloat 10000)],
               [(''n'', PDict [(''best'', PFloat 10000)]), (''bogus'', PDict [(''best'', PInt 5)]),
                (''seed'', PDict [(''best'', PInt 3)])], []))"
    by (simp add: run_defaults_def run_defs median_def)
  from reconcile_stops_at_unknown_key [OF h1 h2 h3] h1 h2 h3
  show ?thesis by simp
qed

subsection \<open>The response\<close>

lemma dict_get_has_series:
  "has_series sm key \<longleftrightarrow> (\<exists>ys. dict_get (results sm) key = Inr ys)"
proof -
  have "key \<in> fst ` set (results sm) \<longleftrightarrow> map_of (results sm) key \<noteq> None"
    by (simp add: map_of_eq_None_iff)
  then show ?thesis
    by (auto simp: has_series_def dict_get_def split: option.splits)
qed

lemma add_traces_ok:
  "(\<exists>ts. add_traces sm n i keylabels = Inr ts)
     \<longleftrightarrow> list_all (\<lambda>(key, label). has_series sm key \<and> has_series sm ''t'') keylabels"
proof (induction keylabels arbitrary: i)
  case Nil
  then show ?case by simp
next
  case (Cons kl keylabels)
  obtain key label where kl: "kl = (key, label)" by (cases kl)
  from Cons.IH [of "Suc i"] show ?case
    by (auto simp: kl dict_get_has_series split: sum.splits)
qed

lemma plot_graphs_ok:
  "(\<exists>gs. plot_graphs env sm p tp = Inr gs)
     \<longleftrightarrow> list_all (\<lambda>(ttl, keylabels).
            list_all (\<lambda>(key, label). has_series sm key \<and> has_series sm ''t'') keylabels) tp"
proof (induction tp arbitrary: p)
  case Nil
  then show ?case by simp
next
  case (Cons g tp)
  obtain ttl keylabels where g: "g = (ttl, keylabels)" by (cases g)
  from Cons.IH [of "Suc p"] add_traces_ok [of sm "length keylabels" 0 keylabels]
  show ?case
    by (auto simp: g split: sum.splits)
qed

lemma plot_graphs_length:
  "plot_graphs env sm p tp = Inr gs \<Longrightarrow> length gs = length tp"
proof (induction tp arbitrary: p gs)
  case Nil
  then show ?case by simp
next
  case (Cons g tp)
  obtain ttl keylabels where g: "g = (ttl, keylabels)" by (cases g)
  from Cons.prems Cons.IH show ?case
    by (auto simp: g split: sum.splits)
qed

lemma last_of_ok: "(\<exists>c. last_of sm key = Inr c) \<longleftrightarrow> has_points sm key"
  by (auto simp: last_of_def has_points_def dict_get_def split: option.splits)

lemma make_summary_ok:
  "(\<exists>sy. make_summary sm = Inr sy) \<longleftrightarrow> has_points sm ''cum_exposed'' \<and> has_points sm ''cum_deaths''"
  using last_of_ok [of sm "''cum_exposed''"] last_of_ok [of sm "''cum_deaths''"]
  by (auto simp: make_summary_def split: sum.splits)

lemma make_summary_days: "make_summary sm = Inr sy \<Longrightarrow> days sy = npts sm - 1"
  by (auto simp: make_summary_def split: sum.splits)

lemma assemble_ok: "(\<exists>out. assemble env er sp ep sm = Inr out) \<longleftrightarrow> series_ok env sm"
  using plot_graphs_ok [of env sm 0 "to_plot env"] make_summary_ok [of sm]
  by (auto simp: assemble_def series_ok_def split: sum.splits)

lemma assemble_result:
  assumes "assemble env er sp ep sm = Inr out"
  shows "err out = er \<and> out_sim_pars out = sp \<and> out_epi_pars out = ep
       \<and> length (graphs out) = length (to_plot env)
       \<and> make_summary sm = Inr (summary out) \<and> files out = make_files env sm"
  using assms plot_graphs_length [of env sm 0 "to_plot env"]
  by (auto simp: assemble_def split: sum.splits)

lemma run_failed_nonempty: "er @ run_failed env e \<noteq> []"
  by (simp add: run_failed_def)

lemma last_of_Inr:
  "last_of sm key = Inr c \<Longrightarrow> \<exists>xs. map_of (results sm) key = Some xs \<and> xs \<noteq> [] \<and> c = last xs"
  by (auto simp: last_of_def dict_get_def split: option.splits if_splits)

lemma make_summary_Inr:
  assumes "make_summary sm = Inr sy"
  shows "\<exists>xs ys. map_of (results sm) ''cum_exposed'' = Some xs \<and> xs \<noteq> []
           \<and> map_of (results sm) ''cum_deaths'' = Some ys \<and> ys \<noteq> []
           \<and> days sy = npts sm - 1 \<and> cases sy = py_round (last xs)
           \<and> deaths sy = py_round (last ys)"
proof -
  from assms obtain c d where cd: "last_of sm ''cum_exposed'' = Inr c"
    "last_of sm ''cum_deaths'' = Inr d"
    "sy = \<lparr>days = npts sm - 1, cases = py_round c, deaths = py_round d\<rparr>"
    by (auto simp: make_summary_def split: sum.splits)
  from last_of_Inr [OF cd(1)] last_of_Inr [OF cd(2)] cd(3) show ?thesis by auto
qed

lemma run_sim_Inr:
  assumes "run_sim env sim_pars epi_pars verbose = Inr out"
  shows "\<exists>err1 pars sp ep seed eo sm er.
      reconcile env sim_pars epi_pars verbose = (err1, Some pars, sp, ep)
    \<and> seed_of env pars = Inr seed
    \<and> sim_run env (dict_merge [(''cfr_by_age'', PBool False)] pars) seed = (eo, sm)
    \<and> assemble env er sp ep sm = Inr out"
proof -
  obtain err1 op sp ep where r: "reconcile env sim_pars epi_pars verbose = (err1, op, sp, ep)"
    by (metis prod_cases4)
  with assms obtain pars where p: "op = Some pars"
    by (cases op) (simp_all add: run_sim_def)
  from assms r p obtain seed where s: "seed_of env pars = Inr seed"
    by (cases "seed_of env pars") (simp_all add: run_sim_def)
  obtain eo sm where
    e: "sim_run env (dict_merge [(''cfr_by_age'', PBool False)] pars) seed = (eo, sm)"
    by (cases "sim_run env (dict_merge [(''cfr_by_age'', PBool False)] pars) seed")
  from assms r p s e have "\<exists>er. assemble env er sp ep sm = Inr out"
    by (cases eo) (auto simp: run_sim_def)
  with r p s e show ?thesis by blast
qed

text \<open>
  Claim C8. When \<^verbatim>\<open>run_sim\<close> returns a result, its summary is taken from the engine
  object of the run: \<^verbatim>\<open>days\<close> is the engine's point count minus one, \<^verbatim>\<open>cases\<close> is the
  rounded last element of the series \<^verbatim>\<open>cum_exposed\<close> (the cumulative infections) and
  \<^verbatim>\<open>deaths\<close> the rounded last element of the series \<^verbatim>\<open>cum_deaths\<close>.
\<close>

theorem run_sim_summary:
  assumes "run_sim env sim_pars epi_pars verbose = Inr out"
  shows "\<exists>err1 pars sp ep seed eo sm xs ys.
      reconcile env sim_pars epi_pars verbose = (err1, Some pars, sp, ep)
    \<and> seed_of env pars = Inr seed
    \<and> sim_run env (dict_merge [(''cfr_by_age'', PBool False)] pars) seed = (eo, sm)
    \<and> map_of (results sm) ''cum_exposed'' = Some xs \<and> xs \<noteq> []
    \<and> map_of (results sm) ''cum_deaths'' = Some ys \<and> ys \<noteq> []
    \<and> days (summary out) = npts sm - 1
    \<and> cases (summary out) = py_round (last xs)
    \<and> deaths (summary out) = py_round (last ys)"
proof -
  from run_sim_Inr [OF assms] obtain err1 pars sp ep seed eo sm er where
    h: "reconcile env sim_pars epi_pars verbose = (err1, Some pars, sp, ep)"
       "seed_of env pars = Inr seed"
       "sim_run env (dict_merge [(''cfr_by_age'', PBool False)] pars) seed = (eo, sm)"
       "assemble env er sp ep sm = Inr out"
    by blast
  from assemble_result [OF h(4)] have "make_summary sm = Inr (summary out)" by simp
  from make_summary_Inr [OF this] h(1,2,3) show ?thesis by blast
qed

lemma demo_run_sim: "snd (demo_run pars seed) = demo_sim"
  by (simp add: demo_run_def)

theorem run_sim_summary_witness:
  "\<exists>out. run_sim demo_env (PDict [(''seed'', PDict [(''best'', PInt 7)])]) (PDict []) True = Inr out
     \<and> days (summary out) = 2 \<and> cases (summary out) = 18 \<and> deaths (summary out) = 2"
proof -
  have "series_ok demo_env demo_sim"
    by (simp add: series_ok_def has_series_def has_points_def demo_env_def demo_sim_def)
  have "\<exists>out. run_sim demo_env (PDict [(''seed'', PDict [(''best'', PInt 7)])]) (PDict []) True
           = Inr out"
    by (simp add: run_sim_def run_defs median_def seed_of_def demo_run_def assemble_def
        make_summary_def last_of_def demo_sim_def)
  then obtain out where
    h: "run_sim demo_env (PDict [(''seed'', PDict [(''best'', PInt 7)])]) (PDict []) True = Inr out"
    by blast
  from run_sim_summary [OF h] obtain pars seed eo sm xs ys where
    s: "sim_run demo_env (dict_merge [(''cfr_by_age'', PBool False)] pars) seed = (eo, sm)"
       "map_of (results sm) ''cum_exposed'' = Some xs"
       "map_of (results sm) ''cum_deaths'' = Some ys"
       "days (summary out) = npts sm - 1"
       "cases (summary out) = py_round (last xs)"
       "deaths (summary out) = py_round (last ys)"
    by blast
  from s(1) have sm: "sm = demo_sim"
    using demo_run_sim [of "dict_merge [(''cfr_by_age'', PBool False)] pars" seed]
    by (simp add: demo_env_def)
  from s(2,3) have "xs = [10, 25/2, 35/2]" "ys = [0, 0, 5/2]"
    by (simp_all add: sm demo_sim_def)
  with s(4,5,6) have "days (summary out) = 2 \<and> cases (summary out) = 18 \<and> deaths (summary out) = 2"
    by (simp add: sm demo_sim_def py_round_def)
  with h show ?thesis by blast
qed

text \<open>
  After a run that raised, the response is assembled as after any run: \<^verbatim>\<open>run_sim\<close>
  returns exactly when the engine object holds every series that is read.
\<close>

lemma run_sim_after_engine_failure:
  assumes "reconcile env sim_pars epi_pars verbose = (err1, Some pars, sp, ep)"
    and "seed_of env pars = Inr seed"
    and "sim_run env (dict_merge [(''cfr_by_age'', PBool False)] pars) seed = (Some e, sm)"
  shows "if series_ok env sm
         then \<exists>out. run_sim env sim_pars epi_pars verbose = Inr out
                \<and> err out = err1 @ run_failed env e \<and> err out \<noteq> []
                \<and> days (summary out) = npts sm - 1
                \<and> length (graphs out) = length (to_plot env)
         else \<exists>x. run_sim env sim_pars epi_pars verbose = Inl x"
proof -
  let ?er = "err1 @ run_failed env e"
  from assms have run: "run_sim env sim_pars epi_pars verbose = assemble env ?er sp ep sm"
    by (simp add: run_sim_def)
  show ?thesis
  proof (cases "series_ok env sm")
    case True
    with assemble_ok [of env ?er sp ep sm] obtain out where
      out: "assemble env ?er sp ep sm = Inr out" by blast
    from assemble_result [OF out] have r: "err out = ?er"
      "length (graphs out) = length (to_plot env)" "make_summary sm = Inr (summary out)"
      by simp_all
    from make_summary_days [OF r(3)] have "days (summary out) = npts sm - 1" .
    with r(1,2) run out run_failed_nonempty [of err1 env e] True show ?thesis by auto
  next
    case False
    with assemble_ok [of env ?er sp ep sm] have "\<nexists>out. assemble env ?er sp ep sm = Inr out"
      by simp
    then obtain x where "assemble env ?er sp ep sm = Inl x"
      by (cases "assemble env ?er sp ep sm") auto
    with run False show ?thesis by simp
  qed
qed

text \<open>
  Claim C4. The claim says that \<^verbatim>\<open>run_sim\<close> still returns a result, with a non-empty
  \<^verbatim>\<open>err\<close> and a summary, when the engine's run raises and leaves no output. Lines 156-161
  catch the exception and record it in the error text, but lines 169-202 read the result
  series without a guard: with an engine whose failed run leaves the result table empty,
  the first series that is read raises \<^verbatim>\<open>KeyError\<close>, which leaves \<^verbatim>\<open>run_sim\<close>, and no
  result is returned.
\<close>

theorem run_sim_engine_failure_raises:
  "sim_run void_env
      (dict_merge [(''cfr_by_age'', PBool False)] [(''verbose'', PBool True), (''seed'', PFloat 7)])
      (Some 7)
     = (Some (EngineError ''no population''), void_sim)
   \<and> run_sim void_env (PDict [(''seed'', PDict [(''best'', PInt 7)])]) (PDict []) True
     = Inl (KeyError ''cum_exposed'')"
  by (simp add: run_sim_def run_defs median_def seed_of_def void_env_def void_run_def
      assemble_def void_sim_def)

subsection \<open>Reconciling twice\<close>

lemma map_of_fold_update:
  "map_of (fold (\<lambda>(k, v). AList.update k v) xs acc) = map_of acc ++ map_of (rev xs)"
  by (induction xs arbitrary: acc)
    (auto simp: update_conv' fun_eq_iff map_add_def split: option.splits)

lemma map_of_rev_distinct: "distinct (map fst xs) \<Longrightarrow> map_of (rev xs) = map_of xs"
  by (rule map_of_inject_set [THEN iffD2]) (simp_all add: rev_map [symmetric])

lemma map_of_dict_merge:
  assumes "distinct (map fst a)" "distinct (map fst b)"
  shows "map_of (dict_merge a b) = map_of a ++ map_of b"
  using assms by (simp add: dict_merge_def map_of_fold_update map_of_rev_distinct)

lemma keys_fold_update:
  assumes "map fst xs = map fst ys" "map fst acc = map fst acc'"
  shows "map fst (fold (\<lambda>(k, v). AList.update k v) xs acc)
       = map fst (fold (\<lambda>(k, v). AList.update k v) ys acc')"
  using assms
proof (induction xs arbitrary: ys acc acc')
  case Nil
  then show ?case by simp
next
  case (Cons x xs)
  then obtain y ys' where ys: "ys = y # ys'" "fst x = fst y" "map fst xs = map fst ys'"
    by (cases ys) auto
  obtain k v where x: "x = (k, v)" by (cases x)
  with ys(2) obtain v' where y: "y = (k, v')" by (cases y) auto
  from Cons.prems(2) have "map fst (AList.update k v acc) = map fst (AList.update k v' acc')"
    by (simp add: update_keys)
  from Cons.IH [OF ys(3) this] show ?case by (simp add: ys(1) x y)
qed

lemma keys_dict_merge:
  "map fst a = map fst a' \<Longrightarrow> map fst b = map fst b'
     \<Longrightarrow> map fst (dict_merge a b) = map fst (dict_merge a' b')"
  unfolding dict_merge_def by (rule keys_fold_update) simp_all

lemma map_of_Some_key: "map_of g k = Some v \<Longrightarrow> k \<in> fst ` set g"
  by (induction g) (auto split: if_splits)

lemma write_best_keys: "write_best g k r = Inr g' \<Longrightarrow> map fst g' = map fst g"
  by (auto simp: write_best_def dict_get_def update_keys map_of_Some_key
      split: sum.splits option.splits)

lemma reconcile_key_keys:
  assumes "reconcile_key env d (pars, sp, ep) (k, e) = (eo, (pars', sp', ep'))"
  shows "map fst sp' = map fst sp \<and> map fst ep' = map fst ep"
  using assms by (auto simp: Let_def write_best_keys split: sum.splits if_splits)

lemma reconcile_loop_keys:
  assumes "reconcile_loop env d (pars, sp, ep) ms = (eo, (pars', sp', ep'))"
  shows "map fst sp' = map fst sp \<and> map fst ep' = map fst ep"
  using assms
proof (induction ms arbitrary: pars sp ep)
  case Nil
  then show ?case by simp
next
  case (Cons item ms)
  obtain k1 e1 where item: "item = (k1, e1)" by (cases item)
  obtain eo1 pars1 sp1 ep1 where
    step: "reconcile_key env d (pars, sp, ep) (k1, e1) = (eo1, (pars1, sp1, ep1))"
    by (metis prod_cases3)
  note ks = reconcile_key_keys [OF step]
  show ?case
  proof (cases eo1)
    case (Some x)
    with Cons.prems step item ks show ?thesis by simp
  next
    case None
    with Cons.prems step item
    have "reconcile_loop env d (pars1, sp1, ep1) ms = (eo, (pars', sp', ep'))" by simp
    from Cons.IH [OF this] ks show ?thesis by simp
  qed
qed

lemma reconcile_value_again:
  assumes "catalog_ok d" and "reconcile_value env d k e = Inr r" and "r \<noteq> PFloat 0"
    and "get_item e' ''best'' = Inr r"
  shows "reconcile_value env d k e' = Inr r"
proof -
  from assms(2) obtain spec where spec: "map_of d k = Some spec"
    by (auto simp: reconcile_value_def dict_get_def split: option.splits)
  from catalog_ok_lookup [OF assms(1) spec] have le: "minv spec \<le> maxv spec" .
  from assms(2) spec have "r = PNone \<or> (\<exists>v. r = PFloat (median [v, minv spec, maxv spec]))"
    by (auto simp: reconcile_value_def dict_get_def Let_def split: sum.splits if_splits)
  then show ?thesis
  proof
    assume "r = PNone"
    with assms(4) spec show ?thesis
      by (simp add: reconcile_value_def dict_get_def)
  next
    assume "\<exists>v. r = PFloat (median [v, minv spec, maxv spec])"
    then obtain v where r: "r = PFloat (median [v, minv spec, maxv spec])" by blast
    let ?m = "median [v, minv spec, maxv spec]"
    from median3_bounds [OF le, of v] have "median [?m, minv spec, maxv spec] = ?m"
      by (simp add: median3_fixed)
    moreover from assms(3) r have "?m \<noteq> 0" by simp
    ultimately show ?thesis
      using assms(4) spec r by (simp add: reconcile_value_def dict_get_def)
  qed
qed

lemma write_best_again:
  assumes "write_best g k r = Inr g1" and "map_of g' k = map_of g1 k"
  shows "write_best g' k r = Inr g'
       \<and> (\<exists>ent. map_of g' k = Some ent \<and> get_item ent ''best'' = Inr r)"
proof -
  from assms(1) obtain ent ent' where w: "map_of g k = Some ent"
    "set_item ent ''best'' r = Inr ent'" "g1 = AList.update k ent' g"
    by (auto simp: write_best_def dict_get_def split: sum.splits option.splits)
  from w(2) obtain de where de: "ent = PDict de" "ent' = PDict (AList.update ''best'' r de)"
    by (cases ent) auto
  from w(3) assms(2) have g': "map_of g' k = Some ent'"
    by (simp add: update_conv')
  from de(2) have again: "set_item ent' ''best'' r = Inr ent'" by simp
  from de(2) have get: "get_item ent' ''best'' = Inr r"
    by (simp add: dict_get_def update_conv')
  from g' have "AList.update k ent' g' = g'" by (rule update_triv)
  with g' again get show ?thesis
    by (simp add: write_best_def dict_get_def)
qed

lemma reconcile_key_again:
  assumes ok: "catalog_ok d"
    and step: "reconcile_key env d (pars, sp, ep) (k, e) = (None, (pars1, sp1, ep1))"
    and e: "(map_of sp ++ map_of ep) k = Some e"
    and nz: "map_of pars1 k \<noteq> Some (PFloat 0)"
    and sp': "map_of sp' k = map_of sp1 k" and ep': "map_of ep' k = map_of ep1 k"
    and e': "(map_of sp' ++ map_of ep') k = Some e'"
  shows "reconcile_key env d (pars, sp', ep') (k, e') = (None, (pars1, sp', ep'))"
proof -
  from step obtain r where r: "reconcile_value env d k e = Inr r"
    and p1: "pars1 = AList.update k r pars"
    by (auto simp: Let_def split: sum.splits if_splits)
  from p1 nz have rnz: "r \<noteq> PFloat 0" by (auto simp: update_conv')
  show ?thesis
  proof (cases "k \<in> set (map fst sp)")
    case True
    with step r have w: "write_best sp k r = Inr sp1" and ep1: "ep1 = ep"
      by (auto simp: Let_def split: sum.splits)
    from write_best_again [OF w sp'] obtain ent where
      w': "write_best sp' k r = Inr sp'" and ent: "map_of sp' k = Some ent"
      "get_item ent ''best'' = Inr r" by blast
    from ent(1) have in': "k \<in> set (map fst sp')" by (simp add: map_of_Some_key)
    have "reconcile_value env d k e' = Inr r"
    proof (cases "map_of ep k")
      case None
      with ep' ep1 e' ent(1) have "e' = ent" by (simp add: map_add_def)
      with reconcile_value_again [OF ok r rnz] ent(2) show ?thesis by simp
    next
      case (Some v)
      with e ep' ep1 e' have "e' = e" by (simp add: map_add_def)
      with r show ?thesis by simp
    qed
    with in' w' p1 show ?thesis by (simp add: Let_def)
  next
    case False
    with step r have w: "write_best ep k r = Inr ep1" and sp1: "sp1 = sp"
      by (auto simp: Let_def split: sum.splits)
    from False have "map_of sp k = None" by (simp add: map_of_eq_None_iff)
    with sp' sp1 have none': "map_of sp' k = None" by simp
    then have notin': "k \<notin> set (map fst sp')" by (simp add: map_of_eq_None_iff)
    from write_best_again [OF w ep'] obtain ent where
      w': "write_best ep' k r = Inr ep'" and ent: "map_of ep' k = Some ent"
      "get_item ent ''best'' = Inr r" by blast
    from e' ent(1) have "e' = ent" by (simp add: map_add_def)
    with reconcile_value_again [OF ok r rnz] ent(2)
    have "reconcile_value env d k e' = Inr r" by simp
    with notin' w' p1 show ?thesis by (simp add: Let_def)
  qed
qed

lemma reconcile_key_error_state:
  assumes "reconcile_key env d (pars, sp, ep) (k, e) = (Some x, (pars1, sp1, ep1))"
  shows "sp1 = sp \<and> ep1 = ep"
  using assms by (auto simp: Let_def split: sum.splits if_splits)

lemma reconcile_loop_again:
  assumes ok: "catalog_ok d"
    and loop: "reconcile_loop env d (pars, sp, ep) ms = (eo, (pars', sp', ep'))"
    and dist: "distinct (map fst ms)"
    and ent: "\<forall>(k, e) \<in> set ms. (map_of sp ++ map_of ep) k = Some e"
    and nz: "\<forall>k. map_of pars' k \<noteq> Some (PFloat 0)"
    and keys: "map fst ms' = map fst ms"
    and ent': "\<forall>(k, e') \<in> set ms'. (map_of sp' ++ map_of ep') k = Some e'"
  shows "reconcile_loop env d (pars, sp', ep') ms' = (eo, (pars', sp', ep'))"
  using loop dist ent keys ent'
proof (induction ms arbitrary: pars sp ep ms')
  case Nil
  then show ?case by simp
next
  case (Cons item ms)
  obtain k e where item: "item = (k, e)" by (cases item)
  from Cons.prems(4) item obtain e' ms'' where
    ms': "ms' = (k, e') # ms''" and keys'': "map fst ms'' = map fst ms"
    by (cases ms') auto
  from Cons.prems(3) item have e: "(map_of sp ++ map_of ep) k = Some e" by simp
  from Cons.prems(5) ms' have e': "(map_of sp' ++ map_of ep') k = Some e'" by simp
  from Cons.prems(5) ms'
  have ent'': "\<forall>(k, e') \<in> set ms''. (map_of sp' ++ map_of ep') k = Some e'" by simp
  from Cons.prems(2) item have notin: "k \<notin> fst ` set ms" and dist': "distinct (map fst ms)"
    by auto
  obtain eo1 pars1 sp1 ep1 where
    step: "reconcile_key env d (pars, sp, ep) (k, e) = (eo1, (pars1, sp1, ep1))"
    by (metis prod_cases3)
  show ?case
  proof (cases eo1)
    case (Some x)
    with Cons.prems(1) step item
    have fin: "eo = Some x" "pars' = pars1" "sp' = sp1" "ep' = ep1" by simp_all
    from reconcile_key_error_state [OF step [unfolded Some]] fin
    have same: "sp' = sp" "ep' = ep" by simp_all
    with e e' have "e' = e" by simp
    with step Some fin same show ?thesis
      by (simp add: ms' del: reconcile_key.simps)
  next
    case None
    with Cons.prems(1) step item
    have rest: "reconcile_loop env d (pars1, sp1, ep1) ms = (eo, (pars', sp', ep'))" by simp
    from reconcile_loop_frame [OF rest notin]
    have fr: "map_of pars' k = map_of pars1 k" "map_of sp' k = map_of sp1 k"
      "map_of ep' k = map_of ep1 k" by simp_all
    from nz fr(1) have nz1: "map_of pars1 k \<noteq> Some (PFloat 0)" by metis
    from reconcile_key_again [OF ok step [unfolded None] e nz1 fr(2) fr(3) e']
    have step': "reconcile_key env d (pars, sp', ep') (k, e') = (None, (pars1, sp', ep'))" .
    have ent1: "\<forall>(k2, e2) \<in> set ms. (map_of sp1 ++ map_of ep1) k2 = Some e2"
    proof (clarify)
      fix k2 e2 assume mem: "(k2, e2) \<in> set ms"
      with notin have "k2 \<noteq> k" by force
      from reconcile_key_frame [OF step this]
      have "map_of sp1 k2 = map_of sp k2" "map_of ep1 k2 = map_of ep k2" by simp_all
      moreover from Cons.prems(3) mem have "(map_of sp ++ map_of ep) k2 = Some e2" by auto
      ultimately show "(map_of sp1 ++ map_of ep1) k2 = Some e2"
        by (auto simp: map_add_def split: option.splits)
    qed
    from Cons.IH [OF rest dist' ent1 keys'' ent'']
    have "reconcile_loop env d (pars1, sp', ep') ms'' = (eo, (pars', sp', ep'))" .
    with step' show ?thesis by (simp add: ms' del: reconcile_key.simps)
  qed
qed

lemma run_defaults_ok: "catalog_ok run_defaults"
  using get_defaults_run by (auto simp: run_defaults_def)

lemma dict_merge_entries:
  assumes "distinct (map fst a)" "distinct (map fst b)"
  shows "\<forall>(k, e) \<in> set (dict_merge a b). (map_of a ++ map_of b) k = Some e"
  using map_of_dict_merge [OF assms] distinct_dict_merge [of a b]
  by (metis (mono_tags, lifting) case_prodI2 map_of_is_SomeI)

text \<open>
  Claim C6, as stated, fails: a value that the first reconciliation clamps to a lower
  bound \<open>0\<close> is the float \<open>0.0\<close>, which is falsy, so the second reconciliation turns it
  into \<^verbatim>\<open>None\<close>. Here \<^verbatim>\<open>interv_days\<close> (bounds 0 and 90) with the value \<open>-5\<close>.
\<close>

theorem reconcile_twice_counterexample:
  "reconcile demo_env (PDict [(''interv_days'', PDict [(''best'', PInt (- 5))])]) (PDict []) True
     = ([], Some [(''verbose'', PBool True), (''interv_days'', PFloat 0)],
        PDict [(''interv_days'', PDict [(''best'', PFloat 0)])], PDict [])
   \<and> reconcile demo_env (PDict [(''interv_days'', PDict [(''best'', PFloat 0)])]) (PDict []) True
     = ([], Some [(''verbose'', PBool True), (''interv_days'', PNone)],
        PDict [(''interv_days'', PDict [(''best'', PNone)])], PDict [])"
  by (simp add: run_defs median_def)

text \<open>
  Claim C6, amended. For two groups that are dicts, if the reconciliation stores no value
  \<open>0.0\<close>, then reconciling the two groups that it leaves gives the same error text, the
  same values in \<^verbatim>\<open>pars\<close> and the same two groups again.
\<close>

theorem reconcile_twice:
  assumes "reconcile env (PDict sp) (PDict ep) verbose = (err1, Some pars1, PDict sp1, PDict ep1)"
    and "distinct (map fst sp)" and "distinct (map fst ep)"
    and "PFloat 0 \<notin> set (map snd pars1)"
  shows "reconcile env (PDict sp1) (PDict ep1) verbose = (err1, Some pars1, PDict sp1, PDict ep1)"
proof -
  let ?p0 = "[(''verbose'', PBool verbose)]"
  note d = get_defaults_run_defaults
  obtain eo p s e where
    loop: "reconcile_loop env run_defaults (?p0, sp, ep) (dict_merge sp ep) = (eo, (p, s, e))"
    by (metis prod_cases3)
  with assms(1) have eq: "p = pars1" "s = sp1" "e = ep1"
    and err: "err1 = (case eo of None \<Rightarrow> [] | Some x \<Rightarrow> conversion_failed env x)"
    by (cases eo; simp add: reconcile_dicts [OF d])+
  from loop eq have loop1: "reconcile_loop env run_defaults (?p0, sp, ep) (dict_merge sp ep)
      = (eo, (pars1, sp1, ep1))" by simp
  from reconcile_loop_keys [OF loop1]
  have ks: "map fst sp1 = map fst sp" "map fst ep1 = map fst ep" by simp_all
  with assms(2,3) have d1: "distinct (map fst sp1)" "distinct (map fst ep1)" by simp_all
  have nz: "\<forall>k. map_of pars1 k \<noteq> Some (PFloat 0)"
  proof
    fix k show "map_of pars1 k \<noteq> Some (PFloat 0)"
    proof
      assume "map_of pars1 k = Some (PFloat 0)"
      then have "(k, PFloat 0) \<in> set pars1" by (rule map_of_SomeD)
      then have "PFloat 0 \<in> snd ` set pars1" by force
      with assms(4) show False by simp
    qed
  qed
  from reconcile_loop_again [OF run_defaults_ok loop1 distinct_dict_merge
      dict_merge_entries [OF assms(2,3)] nz keys_dict_merge [OF ks]
      dict_merge_entries [OF d1]]
  have "reconcile_loop env run_defaults (?p0, sp1, ep1) (dict_merge sp1 ep1)
      = (eo, (pars1, sp1, ep1))" .
  with err show ?thesis
    by (cases eo) (simp_all add: reconcile_dicts [OF d])
qed

theorem reconcile_twice_witness:
  "reconcile demo_env
      (PDict [(''n'', PDict [(''best'', PInt 50000)]), (''interv_days'', PDict [(''best'', PInt 5)])])
      (PDict [(''beta'', PDict [(''best'', PStr [])])]) True
     = ([], Some [(''verbose'', PBool True), (''n'', PFloat 10000), (''interv_days'', PFloat 5),
                  (''beta'', PNone)],
        PDict [(''n'', PDict [(''best'', PFloat 10000)]),
               (''interv_days'', PDict [(''best'', PFloat 5)])],
        PDict [(''beta'', PDict [(''best'', PNone)])])
   \<and> distinct (map fst [(''n'', PDict [(''best'', PInt 50000)]),
                        (''interv_days'', PDict [(''best'', PInt 5)])])
   \<and> distinct (map fst [(''beta'', PDict [(''best'', PStr [])])])
   \<and> PFloat 0 \<notin> set (map snd [(''verbose'', PBool True), (''n'', PFloat 10000),
                                (''interv_days'', PFloat 5), (''beta'', PNone)])
   \<and> reconcile demo_env
        (PDict [(''n'', PDict [(''best'', PFloat 10000)]),
                (''interv_days'', PDict [(''best'', PFloat 5)])])
        (PDict [(''beta'', PDict [(''best'', PNone)])]) True
     = ([], Some [(''verbose'', PBool True), (''n'', PFloat 10000), (''interv_days'', PFloat 5),
                  (''beta'', PNone)],
        PDict [(''n'', PDict [(''best'', PFloat 10000)]),
               (''interv_days'', PDict [(''best'', PFloat 5)])],
        PDict [(''beta'', PDict [(''best'', PNone)])])"
proof -
  have h1: "reconcile demo_env
      (PDict [(''n'', PDict [(''best'', PInt 50000)]), (''interv_days'', PDict [(''best'', PInt 5)])])
      (PDict [(''beta'', PDict [(''best'', PStr [])])]) True
     = ([], Some [(''verbose'', PBool True), (''n'', PFloat 10000), (''interv_days'', PFloat 5),
                  (''beta'', PNone)],
        PDict [(''n'', PDict [(''best'', PFloat 10000)]),
               (''interv_days'', PDict [(''best'', PFloat 5)])],
        PDict [(''beta'', PDict [(''best'', PNone)])])"
    by (simp add: run_defs median_def)
  have h2: "distinct (map fst [(''n'', PDict [(''best'', PInt 50000)]),
                        (''interv_days'', PDict [(''best'', PInt 5)])])"
    by simp
  have h3: "distinct (map fst [(''beta'', PDict [(''best'', PStr [])])])"
    by simp
  have h4: "PFloat 0 \<notin> set (map snd [(''verbose'', PBool True), (''n'', PFloat 10000),
                                (''interv_days'', PFloat 5), (''beta'', PNone)])"
    by simp
  from reconcile_twice [OF h1 h2 h3 h4] h1 h2 h3 h4 show ?thesis
    by (intro conjI)
qed

subsection \<open>The values that the reconciliation stores\<close>

lemma reconcile_value_accepts:
  assumes "map_of d k = Some spec" and "get_item entry ''best'' = Inr b" and "truthy b"
    and "py_float env b = Inr v"
  shows "reconcile_value env d k entry = Inr (PFloat (median [v, minv spec, maxv spec]))"
  using assms by (simp add: reconcile_value_def dict_get_def)

lemma reconcile_key_stores:
  assumes "reconcile_value env d k e = Inr r"
    and "reconcile_key env d (pars, sp, ep) (k, e) = (eo, (pars', sp', ep'))"
  shows "map_of pars' k = Some r"
  using assms by (auto simp: Let_def update_conv' split: sum.splits if_splits)

lemma reconcile_loop_reaches:
  assumes pre: "reconcile_loop env d st0 pre = (None, st1)"
    and dist: "distinct (map fst (pre @ (k, e) # post))"
    and val: "reconcile_value env d k e = Inr r"
    and all: "reconcile_loop env d st0 (pre @ (k, e) # post) = (eo, (pars', sp', ep'))"
  shows "map_of pars' k = Some r"
proof -
  obtain pars1 sp1 ep1 where st1: "st1 = (pars1, sp1, ep1)" by (cases st1)
  obtain eo2 pars2 sp2 ep2 where
    step: "reconcile_key env d (pars1, sp1, ep1) (k, e) = (eo2, (pars2, sp2, ep2))"
    by (metis prod_cases3)
  from reconcile_key_stores [OF val step] have p2: "map_of pars2 k = Some r" .
  show ?thesis
  proof (cases eo2)
    case (Some x)
    with all pre st1 step have "pars' = pars2"
      by (simp add: reconcile_loop_append del: reconcile_key.simps)
    with p2 show ?thesis by simp
  next
    case None
    with all pre st1 step
    have rest: "reconcile_loop env d (pars2, sp2, ep2) post = (eo, (pars', sp', ep'))"
      by (simp add: reconcile_loop_append del: reconcile_key.simps)
    from dist have "k \<notin> fst ` set post" by auto
    from reconcile_loop_frame [OF rest this] p2 show ?thesis by simp
  qed
qed

lemma reconcile_reaches:
  assumes rec: "reconcile env (PDict sp) (PDict ep) verbose = (err1, Some pars, sim_pars', epi_pars')"
    and m: "dict_merge sp ep = pre @ (k, entry) # post"
    and pre: "fst (reconcile_loop env run_defaults ([(''verbose'', PBool verbose)], sp, ep) pre) = None"
    and val: "reconcile_value env run_defaults k entry = Inr r"
  shows "map_of pars k = Some r"
proof -
  let ?st0 = "([(''verbose'', PBool verbose)], sp, ep)"
  obtain st1 where pre': "reconcile_loop env run_defaults ?st0 pre = (None, st1)"
    using pre by (cases "reconcile_loop env run_defaults ?st0 pre") auto
  obtain eo p s e where
    loop: "reconcile_loop env run_defaults ?st0 (dict_merge sp ep) = (eo, (p, s, e))"
    by (metis prod_cases3)
  with rec have "p = pars"
    by (cases eo) (simp_all add: reconcile_dicts [OF get_defaults_run_defaults])
  with loop m have all: "reconcile_loop env run_defaults ?st0 (pre @ (k, entry) # post)
      = (eo, (pars, s, e))" by simp
  from distinct_dict_merge [of sp ep] m
  have dist: "distinct (map fst (pre @ (k, entry) # post))" by simp
  from reconcile_loop_reaches [OF pre' dist val all] show ?thesis .
qed

lemma stored_value_is_median:
  assumes "reconcile env (PDict sp) (PDict ep) verbose = (err1, Some pars, sim_pars', epi_pars')"
    and "map_of (dict_merge sp ep) k = Some entry"
    and "get_item entry ''best'' = Inr b" and "truthy b"
    and "map_of pars k = Some r" and "k \<noteq> ''verbose''"
  shows "\<exists>spec v. map_of run_defaults k = Some spec \<and> py_float env b = Inr v
         \<and> r = PFloat (median [v, minv spec, maxv spec])"
proof -
  from stored_value_from_catalog [OF assms] obtain defaults spec v where
    h: "get_defaults None True = Inr (Merged defaults)" "map_of defaults k = Some spec"
      "py_float env b = Inr v" "r = PFloat (median [v, minv spec, maxv spec])" by blast
  from h(1) get_defaults_run_defaults have "defaults = run_defaults" by simp
  with h show ?thesis by blast
qed


text \<open>
  Claim C1. For a key of the request whose \<^verbatim>\<open>best\<close> is truthy, the value that
  \<^verbatim>\<open>run_sim\<close> stores under that key in \<^verbatim>\<open>pars\<close> is the median of \<^verbatim>\<open>float(best)\<close>, the
  catalog's \<^verbatim>\<open>min\<close> and the catalog's \<^verbatim>\<open>max\<close>. The value is stored whenever the loop
  reaches the key (no key before it raised), the catalog holds the key and \<^verbatim>\<open>float()\<close>
  accepts \<^verbatim>\<open>best\<close>; nothing else is ever stored for the key; and for the bounds
  \<open>lo \<le> hi\<close> of the catalog the median is \<open>v\<close> inside the bounds, \<open>lo\<close> below them and
  \<open>hi\<close> above them.
\<close>

theorem reconciled_value_is_median:
  assumes "reconcile env (PDict sp) (PDict ep) verbose = (err1, Some pars, sim_pars', epi_pars')"
    and "map_of (dict_merge sp ep) k = Some entry"
    and "get_item entry ''best'' = Inr b" and "truthy b"
    and "k \<noteq> ''verbose''"
  shows "get_defaults None True = Inr (Merged run_defaults)
       \<and> (\<forall>pre post spec v.
             dict_merge sp ep = pre @ (k, entry) # post
           \<and> fst (reconcile_loop env run_defaults ([(''verbose'', PBool verbose)], sp, ep) pre) = None
           \<and> map_of run_defaults k = Some spec \<and> py_float env b = Inr v
           \<longrightarrow> map_of pars k = Some (PFloat (median [v, minv spec, maxv spec])))
       \<and> (\<forall>r. map_of pars k = Some r \<longrightarrow>
             (\<exists>spec v. map_of run_defaults k = Some spec \<and> py_float env b = Inr v
                \<and> r = PFloat (median [v, minv spec, maxv spec])))
       \<and> (\<forall>spec v. map_of run_defaults k = Some spec \<longrightarrow>
             minv spec \<le> maxv spec
           \<and> median [v, minv spec, maxv spec]
               = (if v < minv spec then minv spec else if maxv spec < v then maxv spec else v))"
proof -
  have a: "map_of pars k = Some (PFloat (median [v, minv spec, maxv spec]))"
    if "dict_merge sp ep = pre @ (k, entry) # post"
      and "fst (reconcile_loop env run_defaults ([(''verbose'', PBool verbose)], sp, ep) pre) = None"
      and "map_of run_defaults k = Some spec" and "py_float env b = Inr v"
    for pre post spec v
    using reconcile_reaches [OF assms(1) that(1,2)]
      reconcile_value_accepts [OF that(3) assms(3,4) that(4)] by simp
  have b: "\<exists>spec v. map_of run_defaults k = Some spec \<and> py_float env b = Inr v
                \<and> r = PFloat (median [v, minv spec, maxv spec])"
    if "map_of pars k = Some r" for r
    using stored_value_is_median [OF assms(1,2,3,4) that assms(5)] .
  have c: "minv spec \<le> maxv spec
           \<and> median [v, minv spec, maxv spec]
               = (if v < minv spec then minv spec else if maxv spec < v then maxv spec else v)"
    if "map_of run_defaults k = Some spec" for spec v
    using catalog_ok_lookup [OF run_defaults_ok that] by (simp add: median3_clamp)
  from a have a': "\<forall>pre post spec v.
             dict_merge sp ep = pre @ (k, entry) # post
           \<and> fst (reconcile_loop env run_defaults ([(''verbose'', PBool verbose)], sp, ep) pre) = None
           \<and> map_of run_defaults k = Some spec \<and> py_float env b = Inr v
           \<longrightarrow> map_of pars k = Some (PFloat (median [v, minv spec, maxv spec]))"
    by blast
  from b have b': "\<forall>r. map_of pars k = Some r \<longrightarrow>
             (\<exists>spec v. map_of run_defaults k = Some spec \<and> py_float env b = Inr v
                \<and> r = PFloat (median [v, minv spec, maxv spec]))"
    by blast
  from c have c': "\<forall>spec v. map_of run_defaults k = Some spec \<longrightarrow>
             minv spec \<le> maxv spec
           \<and> median [v, minv spec, maxv spec]
               = (if v < minv spec then minv spec else if maxv spec < v then maxv spec else v)"
    by blast
  show ?thesis
    by (rule conjI [OF get_defaults_run_defaults conjI [OF a' conjI [OF b' c']]])
qed

theorem reconciled_value_is_median_witness:
  "reconcile demo_env
      (PDict [(''seed'', PDict [(''best'', PInt 7)]), (''n'', PDict [(''best'', PInt (- 3))])])
      (PDict [(''beta'', PDict [(''best'', PStr [])])]) True
     = ([], Some [(''verbose'', PBool True), (''seed'', PFloat 7), (''n'', PFloat 1),
                  (''beta'', PNone)],
        PDict [(''seed'', PDict [(''best'', PFloat 7)]), (''n'', PDict [(''best'', PFloat 1)])],
        PDict [(''beta'', PDict [(''best'', PNone)])])
   \<and> map_of (dict_merge [(''seed'', PDict [(''best'', PInt 7)]),
                          (''n'', PDict [(''best'', PInt (- 3))])]
                         [(''beta'', PDict [(''best'', PStr [])])]) ''n''
       = Some (PDict [(''best'', PInt (- 3))])
   \<and> get_item (PDict [(''best'', PInt (- 3))]) ''best'' = Inr (PInt (- 3))
   \<and> truthy (PInt (- 3))
   \<and> ''n'' \<noteq> ''verbose''
   \<and> dict_merge [(''seed'', PDict [(''best'', PInt 7)]), (''n'', PDict [(''best'', PInt (- 3))])]
                 [(''beta'', PDict [(''best'', PStr [])])]
       = [(''seed'', PDict [(''best'', PInt 7)])] @ (''n'', PDict [(''best'', PInt (- 3))])
          # [(''beta'', PDict [(''best'', PStr [])])]
   \<and> fst (reconcile_loop demo_env run_defaults
            ([(''verbose'', PBool True)],
             [(''seed'', PDict [(''best'', PInt 7)]), (''n'', PDict [(''best'', PInt (- 3))])],
             [(''beta'', PDict [(''best'', PStr [])])])
            [(''seed'', PDict [(''best'', PInt 7)])]) = None
   \<and> map_of run_defaults ''n''
       = Some (mkspec 2000 1 10000 ''Population size'' ''Number of agents simulated in the model'')
   \<and> py_float demo_env (PInt (- 3)) = Inr (- 3)
   \<and> map_of [(''verbose'', PBool True), (''seed'', PFloat 7), (''n'', PFloat 1), (''beta'', PNone)]
         ''n''
       = Some (PFloat (median [- 3, 1, 10000]))
   \<and> median [- 3, 1, 10000] = 1"
proof -
  let ?sp = "[(''seed'', PDict [(''best'', PInt 7)]), (''n'', PDict [(''best'', PInt (- 3))])]"
  let ?ep = "[(''beta'', PDict [(''best'', PStr [])])]"
  let ?pars = "[(''verbose'', PBool True), (''seed'', PFloat 7), (''n'', PFloat 1), (''beta'', PNone)]"
  let ?spec = "mkspec 2000 1 10000 ''Population size'' ''Number of agents simulated in the model''"
  have h1: "reconcile demo_env (PDict ?sp) (PDict ?ep) True
     = ([], Some ?pars,
        PDict [(''seed'', PDict [(''best'', PFloat 7)]), (''n'', PDict [(''best'', PFloat 1)])],
        PDict [(''beta'', PDict [(''best'', PNone)])])"
    by (simp add: run_defs median_def)
  have h2: "map_of (dict_merge ?sp ?ep) ''n'' = Some (PDict [(''best'', PInt (- 3))])"
    by (simp add: dict_merge_def)
  have h3: "get_item (PDict [(''best'', PInt (- 3))]) ''best'' = Inr (PInt (- 3))"
    by (simp add: dict_get_def)
  have h4: "truthy (PInt (- 3))" by simp
  have h5: "''n'' \<noteq> ''verbose''" by simp
  have g1: "dict_merge ?sp ?ep
       = [(''seed'', PDict [(''best'', PInt 7)])] @ (''n'', PDict [(''best'', PInt (- 3))]) # ?ep"
    by (simp add: dict_merge_def)
  have g2: "fst (reconcile_loop demo_env run_defaults ([(''verbose'', PBool True)], ?sp, ?ep)
            [(''seed'', PDict [(''best'', PInt 7)])]) = None"
    by (simp add: run_defaults_def run_defs median_def)
  have g3: "map_of run_defaults ''n'' = Some ?spec"
    by (simp add: run_defaults_def get_defaults_def catalog_defs)
  have g4: "py_float demo_env (PInt (- 3)) = Inr (- 3)" by simp
  note inst = reconciled_value_is_median [OF h1 h2 h3 h4 h5]
  from inst have "\<forall>pre post spec v.
             dict_merge ?sp ?ep = pre @ (''n'', PDict [(''best'', PInt (- 3))]) # post
           \<and> fst (reconcile_loop demo_env run_defaults ([(''verbose'', PBool True)], ?sp, ?ep) pre) = None
           \<and> map_of run_defaults ''n'' = Some spec \<and> py_float demo_env (PInt (- 3)) = Inr v
           \<longrightarrow> map_of ?pars ''n'' = Some (PFloat (median [v, minv spec, maxv spec]))"
    by (elim conjE)
  from this [rule_format, of "[(''seed'', PDict [(''best'', PInt 7)])]" ?ep ?spec "- 3"] g1 g2 g3 g4
  have c1: "map_of ?pars ''n'' = Some (PFloat (median [- 3, 1, 10000]))"
    by (simp add: mkspec_def)
  from inst have "\<forall>spec v. map_of run_defaults ''n'' = Some spec \<longrightarrow>
             minv spec \<le> maxv spec
           \<and> median [v, minv spec, maxv spec]
               = (if v < minv spec then minv spec else if maxv spec < v then maxv spec else v)"
    by (elim conjE)
  from this [rule_format, of ?spec "- 3"] g3
  have c2: "median [- 3, 1, 10000] = 1" by (simp add: mkspec_def)
  show ?thesis
    by (intro conjI) (fact h1 h2 h3 h4 h5 g1 g2 g3 g4 c1 c2)+
qed

text \<open>
  Claim C10. A value that \<^verbatim>\<open>run_sim\<close> stores in \<^verbatim>\<open>pars\<close> for a key of the request is
  \<^verbatim>\<open>None\<close> or a float. A truthy \<^verbatim>\<open>best\<close> goes through \<^verbatim>\<open>float()\<close>: when \<^verbatim>\<open>float()\<close>
  accepts it (a number, or a string such as \<^verbatim>\<open>"10"\<close>), the median of that float and the
  catalog's bounds is stored for the key whenever the loop reaches the key and the
  catalog holds it, and nothing else is ever stored for the key; when \<^verbatim>\<open>float()\<close>
  raises, nothing is stored for the key and the error text is not empty.
\<close>

theorem best_passes_through_float:
  assumes "reconcile env (PDict sp) (PDict ep) verbose = (err1, Some pars, sim_pars', epi_pars')"
  shows "get_defaults None True = Inr (Merged run_defaults)
       \<and> (\<forall>k r. k \<noteq> ''verbose'' \<and> map_of pars k = Some r \<and> r \<noteq> PNone \<longrightarrow> is_float r)
       \<and> (\<forall>k entry b. map_of (dict_merge sp ep) k = Some entry \<and> k \<noteq> ''verbose''
              \<and> get_item entry ''best'' = Inr b \<and> truthy b \<longrightarrow>
            (case py_float env b of
               Inr v \<Rightarrow>
                 (\<forall>pre post spec.
                     dict_merge sp ep = pre @ (k, entry) # post
                   \<and> fst (reconcile_loop env run_defaults
                            ([(''verbose'', PBool verbose)], sp, ep) pre) = None
                   \<and> map_of run_defaults k = Some spec
                   \<longrightarrow> map_of pars k = Some (PFloat (median [v, minv spec, maxv spec])))
               \<and> (\<forall>r. map_of pars k = Some r \<longrightarrow>
                     (\<exists>spec. map_of run_defaults k = Some spec
                        \<and> r = PFloat (median [v, minv spec, maxv spec])))
             | Inl x \<Rightarrow> err1 \<noteq> [] \<and> map_of pars k = None))"
proof -
  note old = stored_values_are_floats [OF assms]
  from old have a: "\<forall>k r. k \<noteq> ''verbose'' \<and> map_of pars k = Some r \<and> r \<noteq> PNone \<longrightarrow> is_float r"
    by (rule conjunct1)
  have b: "case py_float env b of
               Inr v \<Rightarrow>
                 (\<forall>pre post spec.
                     dict_merge sp ep = pre @ (k, entry) # post
                   \<and> fst (reconcile_loop env run_defaults
                            ([(''verbose'', PBool verbose)], sp, ep) pre) = None
                   \<and> map_of run_defaults k = Some spec
                   \<longrightarrow> map_of pars k = Some (PFloat (median [v, minv spec, maxv spec])))
               \<and> (\<forall>r. map_of pars k = Some r \<longrightarrow>
                     (\<exists>spec. map_of run_defaults k = Some spec
                        \<and> r = PFloat (median [v, minv spec, maxv spec])))
             | Inl x \<Rightarrow> err1 \<noteq> [] \<and> map_of pars k = None"
    if h: "map_of (dict_merge sp ep) k = Some entry" "k \<noteq> ''verbose''"
      "get_item entry ''best'' = Inr b" "truthy b" for k entry b
  proof (cases "py_float env b")
    case (Inl x)
    from old [THEN conjunct2, rule_format, of k entry b] h Inl show ?thesis by simp
  next
    case (Inr v)
    have p: "map_of pars k = Some (PFloat (median [v, minv spec, maxv spec]))"
      if "dict_merge sp ep = pre @ (k, entry) # post"
        and "fst (reconcile_loop env run_defaults ([(''verbose'', PBool verbose)], sp, ep) pre) = None"
        and "map_of run_defaults k = Some spec" for pre post spec
      using reconcile_reaches [OF assms that(1,2)]
        reconcile_value_accepts [OF that(3) h(3,4) Inr] by simp
    have q: "\<exists>spec. map_of run_defaults k = Some spec
                        \<and> r = PFloat (median [v, minv spec, maxv spec])"
      if "map_of pars k = Some r" for r
    proof -
      from stored_value_is_median [OF assms h(1,3,4) that h(2)] obtain spec v' where
        s: "map_of run_defaults k = Some spec" "py_float env b = Inr v'"
        "r = PFloat (median [v', minv spec, maxv spec])" by blast
      from s(2) Inr have "v' = v" by simp
      with s(1,3) show ?thesis by blast
    qed
    from p have p': "\<forall>pre post spec.
                     dict_merge sp ep = pre @ (k, entry) # post
                   \<and> fst (reconcile_loop env run_defaults
                            ([(''verbose'', PBool verbose)], sp, ep) pre) = None
                   \<and> map_of run_defaults k = Some spec
                   \<longrightarrow> map_of pars k = Some (PFloat (median [v, minv spec, maxv spec]))"
      by blast
    from q have q': "\<forall>r. map_of pars k = Some r \<longrightarrow>
                     (\<exists>spec. map_of run_defaults k = Some spec
                        \<and> r = PFloat (median [v, minv spec, maxv spec]))"
      by blast
    from p' q' Inr show ?thesis by simp
  qed
  from b have b': "\<forall>k entry b. map_of (dict_merge sp ep) k = Some entry \<and> k \<noteq> ''verbose''
              \<and> get_item entry ''best'' = Inr b \<and> truthy b \<longrightarrow>
            (case py_float env b of
               Inr v \<Rightarrow>
                 (\<forall>pre post spec.
                     dict_merge sp ep = pre @ (k, entry) # post
                   \<and> fst (reconcile_loop env run_defaults
                            ([(''verbose'', PBool verbose)], sp, ep) pre) = None
                   \<and> map_of run_defaults k = Some spec
                   \<longrightarrow> map_of pars k = Some (PFloat (median [v, minv spec, maxv spec])))
               \<and> (\<forall>r. map_of pars k = Some r \<longrightarrow>
                     (\<exists>spec. map_of run_defaults k = Some spec
                        \<and> r = PFloat (median [v, minv spec, maxv spec])))
             | Inl x \<Rightarrow> err1 \<noteq> [] \<and> map_of pars k = None)"
    by blast
  show ?thesis
    by (rule conjI [OF get_defaults_run_defaults conjI [OF a b']])
qed

theorem best_passes_through_float_witness:
  "reconcile demo_env
      (PDict [(''seed'', PDict [(''best'', PInt 7)]), (''n'', PDict [(''best'', PStr ''10'')]),
              (''n_days'', PDict [(''best'', PStr ''abc'')])])
      (PDict [(''beta'', PDict [(''best'', PStr [])])]) True
   = (''Parameter conversion failed! error'',
      Some [(''verbose'', PBool True), (''seed'', PFloat 7), (''n'', PFloat 10)],
      PDict [(''seed'', PDict [(''best'', PFloat 7)]), (''n'', PDict [(''best'', PFloat 10)]),
             (''n_days'', PDict [(''best'', PStr ''abc'')])],
      PDict [(''beta'', PDict [(''best'', PStr [])])])
   \<and> is_float (PFloat 10)
   \<and> py_float demo_env (PStr ''10'') = Inr 10
   \<and> dict_merge [(''seed'', PDict [(''best'', PInt 7)]), (''n'', PDict [(''best'', PStr ''10'')]),
                  (''n_days'', PDict [(''best'', PStr ''abc'')])]
                 [(''beta'', PDict [(''best'', PStr [])])]
       = [(''seed'', PDict [(''best'', PInt 7)])] @ (''n'', PDict [(''best'', PStr ''10'')])
          # [(''n_days'', PDict [(''best'', PStr ''abc'')]), (''beta'', PDict [(''best'', PStr [])])]
   \<and> fst (reconcile_loop demo_env run_defaults
            ([(''verbose'', PBool True)],
             [(''seed'', PDict [(''best'', PInt 7)]), (''n'', PDict [(''best'', PStr ''10'')]),
              (''n_days'', PDict [(''best'', PStr ''abc'')])],
             [(''beta'', PDict [(''best'', PStr [])])])
            [(''seed'', PDict [(''best'', PInt 7)])]) = None
   \<and> map_of run_defaults ''n''
       = Some (mkspec 2000 1 10000 ''Population size'' ''Number of agents simulated in the model'')
   \<and> map_of [(''verbose'', PBool True), (''seed'', PFloat 7), (''n'', PFloat 10)] ''n''
       = Some (PFloat (median [10, 1, 10000]))
   \<and> py_float demo_env (PStr ''abc'') = Inl ValueError
   \<and> ''Parameter conversion failed! error'' \<noteq> []
   \<and> map_of [(''verbose'', PBool True), (''seed'', PFloat 7), (''n'', PFloat 10)] ''n_days'' = None"
proof -
  let ?sp = "[(''seed'', PDict [(''best'', PInt 7)]), (''n'', PDict [(''best'', PStr ''10'')]),
              (''n_days'', PDict [(''best'', PStr ''abc'')])]"
  let ?ep = "[(''beta'', PDict [(''best'', PStr [])])]"
  let ?pars = "[(''verbose'', PBool True), (''seed'', PFloat 7), (''n'', PFloat 10)]"
  let ?spec = "mkspec 2000 1 10000 ''Population size'' ''Number of agents simulated in the model''"
  have h: "reconcile demo_env (PDict ?sp) (PDict ?ep) True
   = (''Parameter conversion failed! error'', Some ?pars,
      PDict [(''seed'', PDict [(''best'', PFloat 7)]), (''n'', PDict [(''best'', PFloat 10)]),
             (''n_days'', PDict [(''best'', PStr ''abc'')])],
      PDict ?ep)"
    by (simp add: run_defs median_def)
  have f10: "py_float demo_env (PStr ''10'') = Inr 10"
    by (simp add: demo_env_def demo_float_def digit_val_def)
  have fabc: "py_float demo_env (PStr ''abc'') = Inl ValueError"
    by (simp add: demo_env_def demo_float_def digit_val_def)
  have g1: "dict_merge ?sp ?ep
       = [(''seed'', PDict [(''best'', PInt 7)])] @ (''n'', PDict [(''best'', PStr ''10'')])
          # [(''n_days'', PDict [(''best'', PStr ''abc'')]), (''beta'', PDict [(''best'', PStr [])])]"
    by (simp add: dict_merge_def)
  have g2: "fst (reconcile_loop demo_env run_defaults ([(''verbose'', PBool True)], ?sp, ?ep)
            [(''seed'', PDict [(''best'', PInt 7)])]) = None"
    by (simp add: run_defaults_def run_defs median_def)
  have g3: "map_of run_defaults ''n'' = Some ?spec"
    by (simp add: run_defaults_def get_defaults_def catalog_defs)
  note inst = best_passes_through_float [OF h]
  from inst [THEN conjunct2, THEN conjunct1, rule_format, of "''n''" "PFloat 10"]
  have c1: "is_float (PFloat 10)" by simp
  have m10: "map_of (dict_merge ?sp ?ep) ''n'' = Some (PDict [(''best'', PStr ''10'')])"
    by (simp add: dict_merge_def)
  have gi10: "get_item (PDict [(''best'', PStr ''10'')]) ''best'' = Inr (PStr ''10'')"
    by (simp add: dict_get_def)
  have tr10: "truthy (PStr ''10'')" by simp
  have nv10: "''n'' \<noteq> ''verbose''" by simp
  note cs10 = inst [THEN conjunct2, THEN conjunct2, rule_format,
      OF conjI [OF m10 conjI [OF nv10 conjI [OF gi10 tr10]]], unfolded f10 sum.case]
  note pos = cs10 [THEN conjunct1, rule_format, OF conjI [OF g1 conjI [OF g2 g3]]]
  from pos have c2: "map_of ?pars ''n'' = Some (PFloat (median [10, 1, 10000]))"
    by (simp add: mkspec_def)
  have mabc: "map_of (dict_merge ?sp ?ep) ''n_days'' = Some (PDict [(''best'', PStr ''abc'')])"
    by (simp add: dict_merge_def)
  have giabc: "get_item (PDict [(''best'', PStr ''abc'')]) ''best'' = Inr (PStr ''abc'')"
    by (simp add: dict_get_def)
  have trabc: "truthy (PStr ''abc'')" by simp
  have nvabc: "''n_days'' \<noteq> ''verbose''" by simp
  note c3 = inst [THEN conjunct2, THEN conjunct2, rule_format,
      OF conjI [OF mabc conjI [OF nvabc conjI [OF giabc trabc]]], unfolded fabc sum.case]
  from c3 have c3a: "''Parameter conversion failed! error'' \<noteq> []"
    and c3b: "map_of ?pars ''n_days'' = None" by simp_all
  show ?thesis
    by (intro conjI) (fact h c1 f10 g1 g2 g3 c2 fabc c3a c3b)+
qed

end
